theory Spec2Isabelle
  imports Complex_Main
begin

section \<open>JavaScript strings\<close>

text \<open>
  A JavaScript string is modelled as a \<^typ>\<open>string\<close>: one \<^typ>\<open>char\<close> per code unit,
  for code units below 256.  This is exact for header values (the \<open>Headers\<close> object
  hands out byte strings) and covers every address, rule and header name written in
  ASCII.  \<open>undefined\<close> and \<open>null\<close> are \<open>None\<close>; a value is truthy when it is a
  non-empty string.
\<close>

definition truthy :: "string option \<Rightarrow> bool" where
  "truthy v = (case v of None \<Rightarrow> False | Some s \<Rightarrow> s \<noteq> [])"

text \<open>\<open>s.startsWith(p)\<close>\<close>

fun startsWith :: "string \<Rightarrow> string \<Rightarrow> bool" where
  "startsWith s [] = True"
| "startsWith [] (p # ps) = False"
| "startsWith (c # cs) (p # ps) = (c = p \<and> startsWith cs ps)"

text \<open>\<open>s.indexOf(c)\<close> for a one-character needle: \<open>None\<close> stands for \<open>-1\<close>.\<close>

fun indexOf :: "string \<Rightarrow> char \<Rightarrow> nat option" where
  "indexOf [] c = None"
| "indexOf (x # xs) c =
     (if x = c then Some 0
      else (case indexOf xs c of None \<Rightarrow> None | Some i \<Rightarrow> Some (Suc i)))"

text \<open>\<open>s.lastIndexOf(c)\<close>: the position of the last occurrence.\<close>

fun lastIndexOf :: "string \<Rightarrow> char \<Rightarrow> nat option" where
  "lastIndexOf [] c = None"
| "lastIndexOf (x # xs) c =
     (case lastIndexOf xs c of
        Some i \<Rightarrow> Some (Suc i)
      | None \<Rightarrow> (if x = c then Some 0 else None))"

text \<open>\<open>s.includes(c)\<close>\<close>

definition includes_str :: "string \<Rightarrow> char \<Rightarrow> bool" where
  "includes_str s c = (indexOf s c \<noteq> None)"

text \<open>\<open>s.split(c)\<close> for a one-character separator; \<open>''''.split(c)\<close> is \<open>['''']\<close>.\<close>

fun split_str :: "string \<Rightarrow> char \<Rightarrow> string list" where
  "split_str [] c = [[]]"
| "split_str (x # xs) c =
     (if x = c then [] # split_str xs c
      else (case split_str xs c of
              [] \<Rightarrow> [[x]]
            | y # ys \<Rightarrow> (x # y) # ys))"

text \<open>
  \<open>s.trim()\<close>: the white space and line terminators of ECMAScript that are code units
  below 256 (TAB, LF, VT, FF, CR, SP, NBSP).
\<close>

definition isWhiteSpace :: "char \<Rightarrow> bool" where
  "isWhiteSpace c = (of_char c \<in> {9, 10, 11, 12, 13, 32, 160 :: nat})"

definition trim :: "string \<Rightarrow> string" where
  "trim s = rev (dropWhile isWhiteSpace (rev (dropWhile isWhiteSpace s)))"

definition isDigit :: "char \<Rightarrow> bool" where
  "isDigit c = (48 \<le> (of_char c :: nat) \<and> (of_char c :: nat) \<le> 57)"

definition isAlpha :: "char \<Rightarrow> bool" where
  "isAlpha c =
     ((97 \<le> (of_char c :: nat) \<and> (of_char c :: nat) \<le> 122) \<or>
      (65 \<le> (of_char c :: nat) \<and> (of_char c :: nat) \<le> 90))"

section \<open>AddressNormalizer: \<open>stripPort\<close>\<close>

text \<open>The regular expression \<open>/^[a-zA-Z0-9.-]+$/\<close> of \<open>stripPort\<close>.\<close>

definition isHostChar :: "char \<Rightarrow> bool" where
  "isHostChar c = (isAlpha c \<or> isDigit c \<or> c = CHR ''.'' \<or> c = CHR ''-'')"

definition hostnameLike :: "string \<Rightarrow> bool" where
  "hostnameLike s = (s \<noteq> [] \<and> list_all isHostChar s)"

text \<open>
  \<^verbatim>\<open>
  export function stripPort(ip: string) {
    if (ip.startsWith('[')) {
      const endBracket = ip.indexOf(']');
      if (endBracket !== -1) { return ip.slice(0, endBracket + 1); }
    }
    const idx = ip.lastIndexOf(':');
    if (idx !== -1) {
      if (ip.includes('.') || /^[a-zA-Z0-9.-]+$/.test(ip.slice(0, idx))) {
        return ip.slice(0, idx);
      }
    }
    return ip;
  }
  \<close>
  \<open>stripPortColon\<close> is the part after the bracket test.
\<close>

definition stripPortColon :: "string \<Rightarrow> string" where
  "stripPortColon ip =
     (case lastIndexOf ip (CHR '':'') of
        Some idx \<Rightarrow>
          (if includes_str ip (CHR ''.'') \<or> hostnameLike (take idx ip) then take idx ip else ip)
      | None \<Rightarrow> ip)"

definition stripPort :: "string \<Rightarrow> string" where
  "stripPort ip =
     (if startsWith ip ''[''
      then (case indexOf ip (CHR '']'') of
              Some endBracket \<Rightarrow> take (endBracket + 1) ip
            | None \<Rightarrow> stripPortColon ip)
      else stripPortColon ip)"

section \<open>Configuration and request headers\<close>

text \<open>
  The options read from \<open>process.env\<close>; an option that is not set is \<open>None\<close>.
\<close>

record env =
  CLIENT_IP_HEADER :: "string option"
  DEBUG_GEO :: "string option"
  SKIP_LOCATION_HEADERS :: "string option"
  GEOLITE_DB_PATH :: "string option"
  IGNORE_IP :: "string option"

text \<open>
  The request's \<open>Headers\<close> object, as its \<open>get\<close> method: \<open>headers name\<close> is
  \<open>headers.get(name)\<close>, \<open>None\<close> for \<open>null\<close>.  The model covers the names for which
  \<open>get\<close> returns; the names in the code are lower-case literals, the override name
  comes from the configuration.
\<close>

type_synonym headers = "string \<Rightarrow> string option"

text \<open>
  \<open>get\<close> matches header names without regard to case: it lower-cases the bytes
  \<open>A\<close> to \<open>Z\<close> of the name it is given and looks the result up in the header
  list.  \<open>headersOf m\<close> is the \<open>Headers\<close> object of a request whose header list is
  \<open>m\<close>, a map from lower-case names to values.
\<close>

definition lowerChar :: "char \<Rightarrow> char" where
  "lowerChar c =
     (if 65 \<le> (of_char c :: nat) \<and> (of_char c :: nat) \<le> 90
      then char_of ((of_char c :: nat) + 32) else c)"

definition lowerCase :: "string \<Rightarrow> string" where
  "lowerCase s = map lowerChar s"

definition headersOf :: "(string \<rightharpoonup> string) \<Rightarrow> headers" where
  "headersOf m = (\<lambda>name. m (lowerCase name))"

section \<open>IpExtractor: \<open>getIpAddress\<close>\<close>

definition IP_ADDRESS_HEADERS :: "string list" where
  "IP_ADDRESS_HEADERS =
     [''true-client-ip'', ''cf-connecting-ip'', ''fastly-client-ip'',
      ''x-nf-client-connection-ip'', ''do-connecting-ip'', ''x-forwarded-for'',
      ''x-appengine-user-ip'', ''x-real-ip'', ''forwarded'', ''x-client-ip'',
      ''x-cluster-client-ip'', ''x-forwarded'', ''x-original-forwarded-for'']"

text \<open>
  \<open>value.match(/for=(\[?[0-9a-fA-F:.]+\]?)/)\<close>, giving the group \<open>match[1]\<close> of the
  leftmost match, \<open>None\<close> when there is no match.  \<open>forGroup\<close> matches the group at
  the text that follows \<open>for=\<close>: an optional \<open>[\<close>, the longest non-empty run of the
  class, an optional \<open>]\<close>.  When the run is empty after a \<open>[\<close>, giving the bracket
  back does not help (\<open>[\<close> is not in the class), so there is no match at that place.
\<close>

definition isForChar :: "char \<Rightarrow> bool" where
  "isForChar c =
     (isDigit c \<or>
      (97 \<le> (of_char c :: nat) \<and> (of_char c :: nat) \<le> 102) \<or>
      (65 \<le> (of_char c :: nat) \<and> (of_char c :: nat) \<le> 70) \<or>
      c = CHR '':'' \<or> c = CHR ''.'')"

definition forGroup :: "string \<Rightarrow> string option" where
  "forGroup rest =
     (let open = (if startsWith rest ''['' then ''['' else []);
          r1 = drop (length open) rest;
          run = takeWhile isForChar r1;
          r2 = dropWhile isForChar r1;
          close = (if startsWith r2 '']'' then '']'' else [])
      in if run = [] then None else Some (open @ run @ close))"

fun matchFor :: "string \<Rightarrow> string option" where
  "matchFor [] = None"
| "matchFor (c # cs) =
     (if startsWith (c # cs) ''for=''
      then (case forGroup (drop 4 (c # cs)) of
              Some g \<Rightarrow> Some g
            | None \<Rightarrow> matchFor cs)
      else matchFor cs)"

text \<open>\<open>value.split(',')?.[0]?.trim()\<close>: \<open>split\<close> never gives an empty array.\<close>

definition firstForwarded :: "string \<Rightarrow> string" where
  "firstForwarded v = (case split_str v (CHR '','') of [] \<Rightarrow> [] | x # _ \<Rightarrow> trim x)"

text \<open>The prefixes of the private, loopback and link-local addresses.\<close>

definition isPrivate :: "string \<Rightarrow> bool" where
  "isPrivate extractedIp =
     (startsWith extractedIp ''10.'' \<or>
      startsWith extractedIp ''172.16.'' \<or>
      startsWith extractedIp ''172.17.'' \<or>
      startsWith extractedIp ''172.18.'' \<or>
      startsWith extractedIp ''172.19.'' \<or>
      startsWith extractedIp ''172.20.'' \<or>
      startsWith extractedIp ''172.21.'' \<or>
      startsWith extractedIp ''172.22.'' \<or>
      startsWith extractedIp ''172.23.'' \<or>
      startsWith extractedIp ''172.24.'' \<or>
      startsWith extractedIp ''172.25.'' \<or>
      startsWith extractedIp ''172.26.'' \<or>
      startsWith extractedIp ''172.27.'' \<or>
      startsWith extractedIp ''172.28.'' \<or>
      startsWith extractedIp ''172.29.'' \<or>
      startsWith extractedIp ''172.30.'' \<or>
      startsWith extractedIp ''172.31.'' \<or>
      startsWith extractedIp ''192.168.'' \<or>
      startsWith extractedIp ''127.'' \<or>
      extractedIp = ''::1'' \<or>
      startsWith extractedIp ''169.254.'')"

text \<open>
  The value extracted from one header of the precedence list (the body of the loop up
  to \<open>if (!extractedIp) continue\<close>):
  \<^verbatim>\<open>
    let extractedIp = value;
    if (name === 'x-forwarded-for') { extractedIp = value.split(',')?.[0]?.trim(); }
    if (name === 'forwarded') {
      const match = value.match(/for=(\[?[0-9a-fA-F:.]+\]?)/);
      if (match) { extractedIp = match[1]; }
    }
  \<close>
\<close>

definition extractIp :: "string \<Rightarrow> string \<Rightarrow> string" where
  "extractIp name v =
     (let extractedIp = (if name = ''x-forwarded-for'' then firstForwarded v else v)
      in if name = ''forwarded''
         then (case matchFor v of Some m \<Rightarrow> m | None \<Rightarrow> extractedIp)
         else extractedIp)"

text \<open>
  The loop \<open>for (const name of IP_ADDRESS_HEADERS)\<close>: a header with no value, with an
  empty extracted value or with a private address is skipped (\<open>continue\<close>); the first
  other one is selected (\<open>break\<close>).  The result is \<open>selectedIp\<close>, \<open>None\<close> when the
  loop ends without a selection.
\<close>

fun selectIp :: "headers \<Rightarrow> string list \<Rightarrow> string option" where
  "selectIp headers [] = None"
| "selectIp headers (name # names) =
     (case headers name of
        None \<Rightarrow> selectIp headers names
      | Some v \<Rightarrow>
          (if v = [] then selectIp headers names
           else let extractedIp = extractIp name v
                in if extractedIp = [] then selectIp headers names
                   else if isPrivate extractedIp then selectIp headers names
                   else Some extractedIp))"

text \<open>
  The override branch, entered when \<open>customHeader && headers.get(customHeader)\<close>:
  \<^verbatim>\<open>
    let ip = headers.get(customHeader);
    if (customHeader === 'x-forwarded-for' && ip) {
      ip = ip.split(',')?.[0]?.trim() || ip;
    } else if (customHeader === 'forwarded' && ip) {
      const match = ip.match(/for=(\[?[0-9a-fA-F:.]+\]?)/);
      if (match) { ip = match[1]; }
    }
    return ip;
  \<close>
\<close>

definition customIp :: "string \<Rightarrow> string \<Rightarrow> string" where
  "customIp customHeader ip =
     (if customHeader = ''x-forwarded-for'' \<and> ip \<noteq> []
      then (if firstForwarded ip \<noteq> [] then firstForwarded ip else ip)
      else if customHeader = ''forwarded'' \<and> ip \<noteq> []
      then (case matchFor ip of Some m \<Rightarrow> m | None \<Rightarrow> ip)
      else ip)"

text \<open>
  \<open>getIpAddress(headers)\<close>; the result \<open>None\<close> is \<open>null\<close>.  The \<open>DEBUG_GEO\<close> blocks
  only write to the console and read headers again; they do not take part in the
  result and are left out.  The last line is \<open>return selectedIp || null\<close>.
\<close>

definition getIpAddress :: "env \<Rightarrow> headers \<Rightarrow> string option" where
  "getIpAddress e headers =
     (case CLIENT_IP_HEADER e of
        Some customHeader \<Rightarrow>
          (if customHeader \<noteq> [] \<and> truthy (headers customHeader)
           then (case headers customHeader of
                   Some ip \<Rightarrow> Some (customIp customHeader ip)
                 | None \<Rightarrow> None)
           else (if truthy (selectIp headers IP_ADDRESS_HEADERS)
                 then selectIp headers IP_ADDRESS_HEADERS else None))
      | None \<Rightarrow>
          (if truthy (selectIp headers IP_ADDRESS_HEADERS)
           then selectIp headers IP_ADDRESS_HEADERS else None))"

text \<open>
  The test \<open>customHeader && headers.get(customHeader)\<close> that opens the override
  branch: the option names a header and the request has a non-empty value for it.
\<close>

definition overrideApplies :: "env \<Rightarrow> headers \<Rightarrow> bool" where
  "overrideApplies e headers =
     (case CLIENT_IP_HEADER e of
        None \<Rightarrow> False
      | Some customHeader \<Rightarrow> customHeader \<noteq> [] \<and> truthy (headers customHeader))"

section \<open>IpBlocklist: \<open>hasBlockedIp\<close>\<close>

text \<open>
  The address library \<open>ipaddr.js\<close> is not part of the repository; \<open>hasBlockedIp\<close>
  takes it as a parameter.  \<open>parse\<close> and \<open>parseCIDR\<close> throw on a string they
  cannot parse: they return \<open>None\<close> then.  An address has a kind (\<open>addr.kind()\<close>)
  and its parts; \<open>matchRange a r\<close> is \<open>a.match(r)\<close> for an address and a range of
  the same kind.
\<close>

datatype ip_kind = IPv4 | IPv6

datatype ip_addr = Addr (kind: ip_kind) (parts: "nat list")

record ipaddr =
  parse :: "string \<Rightarrow> ip_addr option"
  parseCIDR :: "string \<Rightarrow> (ip_addr \<times> nat) option"
  matchRange :: "ip_addr \<Rightarrow> ip_addr \<times> nat \<Rightarrow> bool"

text \<open>What a call of \<open>hasBlockedIp\<close> can throw: the error of \<open>parse\<close> or of \<open>parseCIDR\<close>.\<close>

datatype error = ParseError string | ParseCIDRError string

text \<open>
  The callback of \<open>ips.find\<close>, for the rule \<open>ip\<close>:
  \<^verbatim>\<open>
    if (ip === clientIp) { return true; }
    if (ip.indexOf('/') > 0) {
      const addr = ipaddr.parse(clientIp);
      const range = ipaddr.parseCIDR(ip);
      if (addr.kind() === range[0].kind() && addr.match(range)) { return true; }
    }
    return false;
  \<close>
\<close>

definition isCidrRule :: "string \<Rightarrow> bool" where
  "isCidrRule ip = (case indexOf ip (CHR ''/'') of None \<Rightarrow> False | Some i \<Rightarrow> 0 < i)"

definition ruleMatches :: "ipaddr \<Rightarrow> string \<Rightarrow> string \<Rightarrow> error + bool" where
  "ruleMatches lib clientIp ip =
     (if ip = clientIp then Inr True
      else if isCidrRule ip
      then (case parse lib clientIp of
              None \<Rightarrow> Inl (ParseError clientIp)
            | Some addr \<Rightarrow>
                (case parseCIDR lib ip of
                   None \<Rightarrow> Inl (ParseCIDRError ip)
                 | Some rng \<Rightarrow>
                     (if kind addr = kind (fst rng) \<and> matchRange lib addr rng
                      then Inr True else Inr False)))
      else Inr False)"

text \<open>
  \<open>ips.find(callback)\<close>: the first rule for which the callback returns true,
  \<open>None\<close> (\<open>undefined\<close>) when there is none; an error thrown by the callback ends
  the search.
\<close>

fun findRule :: "ipaddr \<Rightarrow> string \<Rightarrow> string list \<Rightarrow> error + string option" where
  "findRule lib clientIp [] = Inr None"
| "findRule lib clientIp (ip # ips) =
     (case ruleMatches lib clientIp ip of
        Inl err \<Rightarrow> Inl err
      | Inr True \<Rightarrow> Inr (Some ip)
      | Inr False \<Rightarrow> findRule lib clientIp ips)"

text \<open>
  The value \<open>hasBlockedIp\<close> returns: the rule that \<open>find\<close> found, \<open>undefined\<close> when
  \<open>find\<close> found none, \<open>false\<close> from the last line.
\<close>

datatype blocked = Rule string | Undefined | JFalse

definition isTruthy :: "blocked \<Rightarrow> bool" where
  "isTruthy b = (case b of Rule r \<Rightarrow> r \<noteq> [] | Undefined \<Rightarrow> False | JFalse \<Rightarrow> False)"

text \<open>\<open>ignoreIps.split(',').map(n => n.trim())\<close>\<close>

definition blockRules :: "string \<Rightarrow> string list" where
  "blockRules ignoreIps = map trim (split_str ignoreIps (CHR '',''))"

text \<open>
  \<^verbatim>\<open>
  export function hasBlockedIp(clientIp: string) {
    const ignoreIps = process.env.IGNORE_IP;
    if (ignoreIps) {
      const ips = [];
      if (ignoreIps) { ips.push(...ignoreIps.split(',').map(n => n.trim())); }
      return ips.find(ip => { ... });
    }
    return false;
  }
  \<close>
\<close>

definition hasBlockedIp :: "ipaddr \<Rightarrow> env \<Rightarrow> string \<Rightarrow> error + blocked" where
  "hasBlockedIp lib e clientIp =
     (case IGNORE_IP e of
        None \<Rightarrow> Inr JFalse
      | Some ignoreIps \<Rightarrow>
          (if ignoreIps = [] then Inr JFalse
           else (case findRule lib clientIp (blockRules ignoreIps) of
                   Inl err \<Rightarrow> Inl err
                 | Inr None \<Rightarrow> Inr Undefined
                 | Inr (Some ip) \<Rightarrow> Inr (Rule ip))))"

subsection \<open>The library on dotted decimal IPv4 addresses\<close>

text \<open>
  An instance of the library for the examples: it parses the four-part decimal form
  of an IPv4 address (parts \<open>0\<close> to \<open>255\<close>, no leading zero) and a range
  \<open>address/length\<close> with a length of at most 32, and rejects every other string.
  On the strings it accepts it gives what \<open>ipaddr.js\<close> gives; \<open>ipaddr.js\<close> also
  accepts IPv6 addresses and other spellings of IPv4 addresses.
\<close>

definition digitsValue :: "string \<Rightarrow> nat" where
  "digitsValue s = foldl (\<lambda>n c. 10 * n + (of_char c - 48)) 0 s"

definition isDecimal :: "string \<Rightarrow> bool" where
  "isDecimal s = (s \<noteq> [] \<and> list_all isDigit s)"

definition isOctet :: "string \<Rightarrow> bool" where
  "isOctet s =
     (isDecimal s \<and> length s \<le> 3 \<and> (length s = 1 \<or> \<not> startsWith s ''0'') \<and>
      digitsValue s \<le> 255)"

definition parseV4 :: "string \<Rightarrow> ip_addr option" where
  "parseV4 s =
     (let ps = split_str s (CHR ''.'')
      in if length ps = 4 \<and> list_all isOctet ps
         then Some (Addr IPv4 (map digitsValue ps)) else None)"

text \<open>\<open>/^(.+)\/(\d+)$/\<close>: the address before the last \<open>/\<close>, the length after it.\<close>

definition parseCIDRV4 :: "string \<Rightarrow> (ip_addr \<times> nat) option" where
  "parseCIDRV4 s =
     (case lastIndexOf s (CHR ''/'') of
        None \<Rightarrow> None
      | Some i \<Rightarrow>
          (let bits = drop (Suc i) s
           in if isDecimal bits \<and> length bits \<le> 2 \<and> digitsValue bits \<le> 32
              then (case parseV4 (take i s) of
                      None \<Rightarrow> None
                    | Some a \<Rightarrow> Some (a, digitsValue bits))
              else None))"

text \<open>
  \<open>matchCIDR(first, second, partSize, cidrBits)\<close> of the library with parts of 8 bits:
  part by part, the leading \<open>cidrBits\<close> bits are compared.
\<close>

fun matchCIDR :: "nat list \<Rightarrow> nat list \<Rightarrow> nat \<Rightarrow> bool" where
  "matchCIDR (a # as) (b # bs) cidrBits =
     (if cidrBits = 0 then True
      else if a div 2 ^ (8 - cidrBits) \<noteq> b div 2 ^ (8 - cidrBits) then False
      else matchCIDR as bs (cidrBits - 8))"
| "matchCIDR [] bs cidrBits = True"
| "matchCIDR as [] cidrBits = True"

definition ipaddrV4 :: ipaddr where
  "ipaddrV4 =
     \<lparr>parse = parseV4, parseCIDR = parseCIDRV4,
      matchRange = (\<lambda>a r. matchCIDR (parts a) (parts (fst r)) (snd r))\<rparr>"

section \<open>DeviceClassifier: \<open>getDevice\<close>\<close>

text \<open>
  The unary plus of \<open>+width\<close> is the conversion of a string to a number
  (\<open>StringToNumber\<close>).  The result is \<open>NaN\<close>, an infinity, or a finite number, of
  which the model keeps the mathematical value of the literal.
\<close>

datatype jsnumber = NaN | PosInfinity | NegInfinity | Finite rat

text \<open>
  The value of a non-empty string of digits in a radix (\<open>0\<close> to \<open>9\<close>, \<open>a\<close> to \<open>f\<close>,
  \<open>A\<close> to \<open>F\<close>), \<open>None\<close> when the string is empty or has another character.
\<close>

definition radixDigit :: "nat \<Rightarrow> char \<Rightarrow> nat option" where
  "radixDigit radix c =
     (let n = (of_char c :: nat);
          v = (if 48 \<le> n \<and> n \<le> 57 then Some (n - 48)
               else if 97 \<le> n \<and> n \<le> 102 then Some (n - 87)
               else if 65 \<le> n \<and> n \<le> 70 then Some (n - 55)
               else None)
      in case v of None \<Rightarrow> None | Some d \<Rightarrow> (if d < radix then Some d else None))"

fun radixValue :: "nat \<Rightarrow> nat \<Rightarrow> string \<Rightarrow> nat option" where
  "radixValue radix acc [] = Some acc"
| "radixValue radix acc (c # cs) =
     (case radixDigit radix c of
        None \<Rightarrow> None
      | Some d \<Rightarrow> radixValue radix (radix * acc + d) cs)"

definition radixLiteral :: "nat \<Rightarrow> string \<Rightarrow> jsnumber" where
  "radixLiteral radix ds =
     (if ds = [] then NaN
      else (case radixValue radix 0 ds of None \<Rightarrow> NaN | Some n \<Rightarrow> Finite (of_nat n)))"

text \<open>
  The exponent part after \<open>e\<close> or \<open>E\<close>: an optional sign and decimal digits.
\<close>

definition signedInteger :: "string \<Rightarrow> int option" where
  "signedInteger s =
     (if startsWith s ''+''
      then (if isDecimal (tl s) then Some (int (digitsValue (tl s))) else None)
      else if startsWith s ''-''
      then (if isDecimal (tl s) then Some (- int (digitsValue (tl s))) else None)
      else (if isDecimal s then Some (int (digitsValue s)) else None))"

definition isExponentIndicator :: "char \<Rightarrow> bool" where
  "isExponentIndicator c = (c = CHR ''e'' \<or> c = CHR ''E'')"

text \<open>
  An unsigned decimal literal: \<open>Infinity\<close>, or digits with an optional fraction
  and an optional exponent (\<open>12\<close>, \<open>12.\<close>, \<open>12.5\<close>, \<open>.5\<close>, each with \<open>e3\<close>, \<open>E+3\<close>
  or \<open>e-3\<close>).  Its value is the digits of the integer and fraction parts, scaled
  by ten to the exponent less the length of the fraction.
\<close>

definition scale10 :: "nat \<Rightarrow> int \<Rightarrow> rat" where
  "scale10 n k = (if 0 \<le> k then of_nat n * 10 ^ nat k else of_nat n / 10 ^ nat (- k))"

definition unsignedDecimal :: "string \<Rightarrow> jsnumber" where
  "unsignedDecimal s =
     (if s = ''Infinity'' then PosInfinity
      else
        (let mantissa = takeWhile (\<lambda>c. \<not> isExponentIndicator c) s;
             rest = dropWhile (\<lambda>c. \<not> isExponentIndicator c) s;
             exponent = (if rest = [] then Some 0 else signedInteger (tl rest));
             intPart = takeWhile (\<lambda>c. c \<noteq> CHR ''.'') mantissa;
             fracPart = (case dropWhile (\<lambda>c. c \<noteq> CHR ''.'') mantissa of
                           [] \<Rightarrow> []
                         | dot # fs \<Rightarrow> fs)
         in case exponent of
              None \<Rightarrow> NaN
            | Some ex \<Rightarrow>
                (if list_all isDigit intPart \<and> list_all isDigit fracPart \<and>
                    (intPart \<noteq> [] \<or> fracPart \<noteq> [])
                 then Finite (scale10 (digitsValue (intPart @ fracPart))
                                (ex - int (length fracPart)))
                 else NaN)))"

definition negate :: "jsnumber \<Rightarrow> jsnumber" where
  "negate n =
     (case n of
        NaN \<Rightarrow> NaN
      | PosInfinity \<Rightarrow> NegInfinity
      | NegInfinity \<Rightarrow> PosInfinity
      | Finite v \<Rightarrow> Finite (- v))"

text \<open>
  \<open>+s\<close>: white space and line terminators around the literal are dropped; an empty
  or blank string is \<open>0\<close>; a literal in radix 16, 8 or 2 has a prefix and no sign; a
  decimal literal may have a sign; every other string is \<open>NaN\<close>.
\<close>

definition toNumber :: "string \<Rightarrow> jsnumber" where
  "toNumber s =
     (let t = trim s
      in if t = [] then Finite 0
         else if startsWith t ''0x'' \<or> startsWith t ''0X'' then radixLiteral 16 (drop 2 t)
         else if startsWith t ''0o'' \<or> startsWith t ''0O'' then radixLiteral 8 (drop 2 t)
         else if startsWith t ''0b'' \<or> startsWith t ''0B'' then radixLiteral 2 (drop 2 t)
         else if startsWith t ''+'' then unsignedDecimal (tl t)
         else if startsWith t ''-'' then negate (unsignedDecimal (tl t))
         else unsignedDecimal t)"

text \<open>
  \<open>n <= 1920\<close> for the number that \<open>+s\<close> gives.  The number is the double nearest
  to the value of the literal.  The doubles next to 1920 are \<open>2 ^ 42\<close> to the unit,
  and 1920 is the even one of its neighbours: so the nearest double is at most 1920
  exactly when the value is at most \<open>1920 + 1 / 2 ^ 43\<close>.  \<open>NaN\<close> compares false.
\<close>

definition atMost1920 :: "jsnumber \<Rightarrow> bool" where
  "atMost1920 n =
     (case n of
        NaN \<Rightarrow> False
      | PosInfinity \<Rightarrow> False
      | NegInfinity \<Rightarrow> True
      | Finite v \<Rightarrow> v \<le> 1920 + 1 / 2 ^ 43)"

text \<open>
  \<^verbatim>\<open>
  export function getDevice(userAgent: string, screen: string = '') {
    const { device } = UAParser(userAgent);
    const [width] = screen.split('x');
    const type = device?.type || 'desktop';
    if (type === 'desktop' && screen && +width <= 1920) { return 'laptop'; }
    return type;
  }
  \<close>
  The user-agent parser is outside the repository: \<open>deviceType userAgent\<close> is
  \<open>UAParser(userAgent).device?.type\<close>, \<open>None\<close> when it is undefined.
\<close>

definition getDevice :: "(string \<Rightarrow> string option) \<Rightarrow> string \<Rightarrow> string \<Rightarrow> string" where
  "getDevice deviceType userAgent screen =
     (let width = (case split_str screen (CHR ''x'') of [] \<Rightarrow> [] | w # _ \<Rightarrow> w);
          type = (case deviceType userAgent of
                    None \<Rightarrow> ''desktop''
                  | Some t \<Rightarrow> (if t = [] then ''desktop'' else t))
      in if type = ''desktop'' \<and> screen \<noteq> [] \<and> atMost1920 (toNumber width)
         then ''laptop'' else type)"

section \<open>GeoResolver: \<open>getLocation\<close>\<close>

text \<open>
  \<^verbatim>\<open>
  function getRegionCode(country: string, region: string) {
    if (!country || !region) { return undefined; }
    return region.includes('-') ? region : `${country}-${region}`;
  }
  \<close>
\<close>

definition getRegionCode :: "string option \<Rightarrow> string option \<Rightarrow> string option" where
  "getRegionCode country region =
     (case country of
        None \<Rightarrow> None
      | Some c \<Rightarrow>
          (case region of
             None \<Rightarrow> None
           | Some r \<Rightarrow>
               (if c = [] \<or> r = [] then None
                else if includes_str r (CHR ''-'') then Some r
                else Some (c @ ''-'' @ r))))"

record provider =
  countryHeader :: string
  regionHeader :: string
  cityHeader :: string

definition PROVIDER_HEADERS :: "provider list" where
  "PROVIDER_HEADERS =
     [\<lparr>countryHeader = ''cf-ipcountry'', regionHeader = ''cf-region-code'',
       cityHeader = ''cf-ipcity''\<rparr>,
      \<lparr>countryHeader = ''x-vercel-ip-country'',
       regionHeader = ''x-vercel-ip-country-region'',
       cityHeader = ''x-vercel-ip-city''\<rparr>,
      \<lparr>countryHeader = ''cloudfront-viewer-country'',
       regionHeader = ''cloudfront-viewer-country-region'',
       cityHeader = ''cloudfront-viewer-city''\<rparr>]"

text \<open>The result of \<open>getLocation\<close>; \<open>None\<close> in a field is \<open>undefined\<close> or \<open>null\<close>.\<close>

record location =
  country :: "string option"
  region :: "string option"
  city :: "string option"

text \<open>
  The fields of a database record that \<open>getLocation\<close> reads:
  \<open>result.country?.iso_code\<close>, \<open>result?.registered_country?.iso_code\<close>,
  \<open>result.subdivisions?.[0]?.iso_code\<close> and \<open>result.city?.names?.en\<close>.
\<close>

record city_response =
  country_iso_code :: "string option"
  registered_country_iso_code :: "string option"
  subdivision_iso_code :: "string option"
  city_names_en :: "string option"

text \<open>
  What \<open>getLocation\<close> uses from outside the repository, for a database handle of
  type \<open>'db\<close>: the check for a local address (\<open>is-localhost-ip\<close>), the decoding
  \<open>Buffer.from(s, 'latin1').toString('utf-8')\<close>, the default path
  \<open>path.resolve(path.join(process.cwd(), 'geo'), 'GeoLite2-City.mmdb')\<close>, whether
  \<open>fs.access\<close> succeeds on a path, \<open>maxmind.open\<close> (\<open>None\<close> when it throws) and the
  handle's \<open>get\<close>.
\<close>

record 'db world =
  isLocalhost :: "string \<Rightarrow> bool"
  latin1ToUtf8 :: "string \<Rightarrow> string"
  defaultDbPath :: string
  fsAccess :: "string \<Rightarrow> bool"
  maxmindOpen :: "string \<Rightarrow> 'db option"
  dbGet :: "'db \<Rightarrow> string \<Rightarrow> city_response option"

text \<open>
  The effects of a call, in order: the header reads, the file check, the opening of
  the database, the lookups, and the lines written to the console.
\<close>

datatype event =
  HeaderGet string | FsAccess string | DbOpen string | DbGet string
  | ConsoleLog | ConsoleError

text \<open>
  The state a call works on: \<open>MAXMIND\<close> is \<open>globalThis[MAXMIND]\<close>, the database
  handle of the process (\<open>None\<close> before it is opened), and \<open>trace\<close> lists the effects
  so far.
\<close>

record 'db geo_state =
  MAXMIND :: "'db option"
  trace :: "event list"

definition emit :: "event \<Rightarrow> 'db geo_state \<Rightarrow> 'db geo_state" where
  "emit ev s = s\<lparr>trace := trace s @ [ev]\<rparr>"

text \<open>\<open>if (process.env.DEBUG_GEO) { console.log(...) }\<close>\<close>

definition debugLog :: "env \<Rightarrow> 'db geo_state \<Rightarrow> 'db geo_state" where
  "debugLog e s = (if truthy (DEBUG_GEO e) then emit ConsoleLog s else s)"

text \<open>
  \<^verbatim>\<open>
  function decodeHeader(s: string | undefined | null): string | undefined | null {
    if (s === undefined || s === null) { return s; }
    return Buffer.from(s, 'latin1').toString('utf-8');
  }
  \<close>
\<close>

definition decodeHeader :: "'db world \<Rightarrow> string option \<Rightarrow> string option" where
  "decodeHeader w s = (case s of None \<Rightarrow> None | Some v \<Rightarrow> Some (latin1ToUtf8 w v))"

text \<open>
  The loop \<open>for (const provider of PROVIDER_HEADERS)\<close>: the first provider whose
  country header has a non-empty value gives the location; \<open>None\<close> when the loop
  ends without a return.
\<close>

fun providerTier ::
  "'db world \<Rightarrow> env \<Rightarrow> headers \<Rightarrow> provider list \<Rightarrow> 'db geo_state
     \<Rightarrow> location option \<times> 'db geo_state" where
  "providerTier w e headers [] s = (None, s)"
| "providerTier w e headers (p # ps) s =
     (let s1 = emit (HeaderGet (countryHeader p)) s
      in if truthy (headers (countryHeader p))
         then (let country = decodeHeader w (headers (countryHeader p));
                   s2 = emit (HeaderGet (regionHeader p)) s1;
                   region = decodeHeader w (headers (regionHeader p));
                   s3 = emit (HeaderGet (cityHeader p)) s2;
                   city = decodeHeader w (headers (cityHeader p));
                   s4 = debugLog e s3
               in (Some \<lparr>country = country, region = getRegionCode country region,
                          city = city\<rparr>, s4))
         else providerTier w e headers ps s1)"

text \<open>
  The lookup, from \<open>const strippedIp = stripPort(ip)\<close> to the end of the function,
  on the open handle \<open>db\<close>.
\<close>

definition dbLookup ::
  "'db world \<Rightarrow> env \<Rightarrow> 'db \<Rightarrow> string \<Rightarrow> 'db geo_state \<Rightarrow> location option \<times> 'db geo_state" where
  "dbLookup w e db ip s =
     (let strippedIp = stripPort ip;
          s1 = debugLog e (emit (DbGet strippedIp) s)
      in case dbGet w db strippedIp of
           Some result \<Rightarrow>
             (let country = (case country_iso_code result of
                               Some c \<Rightarrow> Some c
                             | None \<Rightarrow> registered_country_iso_code result);
                  region = subdivision_iso_code result;
                  city = city_names_en result
              in (Some \<lparr>country = country, region = getRegionCode country region,
                         city = city\<rparr>, debugLog e s1))
         | None \<Rightarrow> (None, debugLog e s1))"

text \<open>
  The database tier, from \<open>if (!globalThis[MAXMIND])\<close>: a handle that is not open yet
  is opened from \<open>GEOLITE_DB_PATH\<close> or the default path; a file that is missing or
  cannot be opened ends the call with \<open>null\<close> and leaves the handle unset.
\<close>

definition databaseTier ::
  "'db world \<Rightarrow> env \<Rightarrow> string \<Rightarrow> 'db geo_state \<Rightarrow> location option \<times> 'db geo_state" where
  "databaseTier w e ip s =
     (case MAXMIND s of
        Some db \<Rightarrow> dbLookup w e db ip s
      | None \<Rightarrow>
          (let dbPath = (case GEOLITE_DB_PATH e of
                           None \<Rightarrow> defaultDbPath w
                         | Some p \<Rightarrow> (if p = [] then defaultDbPath w else p));
               s1 = emit (FsAccess dbPath) (debugLog e s)
           in if \<not> fsAccess w dbPath then (None, emit ConsoleError s1)
              else (let s2 = emit (DbOpen dbPath) s1
                    in case maxmindOpen w dbPath of
                         None \<Rightarrow> (None, emit ConsoleError s2)
                       | Some db \<Rightarrow>
                           dbLookup w e db ip (debugLog e (s2\<lparr>MAXMIND := Some db\<rparr>)))))"

text \<open>
  \<open>getLocation(ip, headers, hasPayloadIP)\<close>:
  \<^verbatim>\<open>
    if (!ip || (await isLocalhost(ip))) { ...; return null; }
    ...
    if (!hasPayloadIP && !process.env.SKIP_LOCATION_HEADERS) {
      for (const provider of PROVIDER_HEADERS) { ... }
    }
    // Database lookup
    ...
  \<close>
\<close>

definition getLocation ::
  "'db world \<Rightarrow> env \<Rightarrow> string \<Rightarrow> headers \<Rightarrow> bool \<Rightarrow> 'db geo_state
     \<Rightarrow> location option \<times> 'db geo_state" where
  "getLocation w e ip headers hasPayloadIP s =
     (if ip = [] \<or> isLocalhost w ip then (None, debugLog e s)
      else (let s1 = debugLog e s
            in if \<not> hasPayloadIP \<and> \<not> truthy (SKIP_LOCATION_HEADERS e)
               then (case providerTier w e headers PROVIDER_HEADERS s1 of
                       (Some loc, s2) \<Rightarrow> (Some loc, s2)
                     | (None, s2) \<Rightarrow> databaseTier w e ip s2)
               else databaseTier w e ip s1))"

subsection \<open>A process for the examples\<close>

text \<open>
  A world in which \<open>127.0.0.1\<close> is the only local address, the database file exists
  and opens, and the database knows the address \<open>198.51.100.23\<close>; a configuration
  with no option set; the state of a process that has not opened the database.
\<close>

definition exampleWorld :: "unit world" where
  "exampleWorld =
     \<lparr>isLocalhost = (\<lambda>ip. ip = ''127.0.0.1''),
      latin1ToUtf8 = (\<lambda>s. s),
      defaultDbPath = ''/app/geo/GeoLite2-City.mmdb'',
      fsAccess = (\<lambda>p. True),
      maxmindOpen = (\<lambda>p. Some ()),
      dbGet = (\<lambda>db ip. if ip = ''198.51.100.23''
                 then Some \<lparr>country_iso_code = Some ''DE'',
                             registered_country_iso_code = Some ''DE'',
                             subdivision_iso_code = Some ''BY'',
                             city_names_en = Some ''Munich''\<rparr>
                 else None)\<rparr>"

definition exampleEnv :: env where
  "exampleEnv =
     \<lparr>CLIENT_IP_HEADER = None, DEBUG_GEO = None, SKIP_LOCATION_HEADERS = None,
      GEOLITE_DB_PATH = None, IGNORE_IP = None\<rparr>"

definition exampleState :: "unit geo_state" where
  "exampleState = \<lparr>MAXMIND = None, trace = []\<rparr>"

section \<open>Properties of the string operations\<close>

lemma indexOf_None_iff: "indexOf s c = None \<longleftrightarrow> c \<notin> set s"
  by (induction s) (auto split: option.splits)

lemma indexOf_Some_take:
  "indexOf s c = Some i \<Longrightarrow> take (Suc i) s = takeWhile (\<lambda>x. x \<noteq> c) s @ [c]"
  by (induction s arbitrary: i) (auto split: option.splits if_splits)

lemma lastIndexOf_None_iff: "lastIndexOf s c = None \<longleftrightarrow> c \<notin> set s"
  by (induction s) (auto split: option.splits)

lemma lastIndexOf_pos: "lastIndexOf (x # xs) c = Some i \<Longrightarrow> x \<noteq> c \<Longrightarrow> 0 < i"
  by (auto split: option.splits if_splits)

lemma stripPortColon_bracket:
  assumes "startsWith ip ''[''"
  shows "stripPortColon ip =
     (case lastIndexOf ip (CHR '':'') of
        Some idx \<Rightarrow> (if CHR ''.'' \<in> set ip then take idx ip else ip)
      | None \<Rightarrow> ip)"
proof (cases ip)
  case Nil
  with assms show ?thesis by simp
next
  case (Cons x xs)
  with assms have x: "x = CHR ''[''" by simp
  show ?thesis
  proof (cases "lastIndexOf ip (CHR '':'')")
    case None
    then show ?thesis by (simp add: stripPortColon_def)
  next
    case (Some idx)
    with Cons x have "0 < idx" using lastIndexOf_pos [of x xs "CHR '':''" idx] by simp
    then obtain j where j: "idx = Suc j" by (cases idx) auto
    have "\<not> hostnameLike (take idx ip)"
      using Cons x j by (simp add: hostnameLike_def isHostChar_def isAlpha_def isDigit_def)
    with Some show ?thesis
      by (simp add: stripPortColon_def includes_str_def indexOf_None_iff)
  qed
qed

section \<open>Properties of \<open>stripPort\<close>\<close>

text \<open>
  Claim C3, as the code has it.  For an address that starts with \<open>[\<close>: when it
  contains a \<open>]\<close>, \<open>stripPort\<close> returns the address up to and including the first
  \<open>]\<close>; when it contains none, the function goes on to the rule of the last colon,
  where the text before the colon starts with \<open>[\<close> and so is never host-like: the
  address is cut at its last \<open>:\<close> when it contains a \<open>:\<close> and a \<open>.\<close>, and is returned
  unchanged otherwise.  The three examples of the claim hold.
\<close>

theorem stripPort_bracketed:
  "(startsWith ip ''['' \<longrightarrow>
      stripPort ip =
        (if CHR '']'' \<in> set ip then takeWhile (\<lambda>c. c \<noteq> CHR '']'') ip @ '']''
         else (case lastIndexOf ip (CHR '':'') of
                 Some idx \<Rightarrow> (if CHR ''.'' \<in> set ip then take idx ip else ip)
               | None \<Rightarrow> ip))) \<and>
   stripPort ''[2001:db8::1]:8080'' = ''[2001:db8::1]'' \<and>
   stripPort ''192.0.2.1:443'' = ''192.0.2.1'' \<and>
   stripPort ''2001:db8::1'' = ''2001:db8::1''"
proof -
  have a: "startsWith ip ''['' \<longrightarrow>
      stripPort ip =
        (if CHR '']'' \<in> set ip then takeWhile (\<lambda>c. c \<noteq> CHR '']'') ip @ '']''
         else (case lastIndexOf ip (CHR '':'') of
                 Some idx \<Rightarrow> (if CHR ''.'' \<in> set ip then take idx ip else ip)
               | None \<Rightarrow> ip))"
  proof
    assume b: "startsWith ip ''[''"
    show "stripPort ip =
        (if CHR '']'' \<in> set ip then takeWhile (\<lambda>c. c \<noteq> CHR '']'') ip @ '']''
         else (case lastIndexOf ip (CHR '':'') of
                 Some idx \<Rightarrow> (if CHR ''.'' \<in> set ip then take idx ip else ip)
               | None \<Rightarrow> ip))"
    proof (cases "indexOf ip (CHR '']'')")
      case None
      then have "CHR '']'' \<notin> set ip" by (simp add: indexOf_None_iff)
      with None b show ?thesis
        by (simp add: stripPort_def stripPortColon_bracket)
    next
      case (Some i)
      then have "CHR '']'' \<in> set ip" using indexOf_None_iff [of ip "CHR '']''"] by auto
      with Some b show ?thesis
        by (simp add: stripPort_def indexOf_Some_take)
    qed
  qed
  have c: "stripPort ''[2001:db8::1]:8080'' = ''[2001:db8::1]''" by code_simp
  have d: "stripPort ''192.0.2.1:443'' = ''192.0.2.1''" by code_simp
  have e: "stripPort ''2001:db8::1'' = ''2001:db8::1''" by code_simp
  from a c d e show ?thesis by blast
qed

text \<open>The theorem of C3 at the bracketed address \<open>[::1]:80\<close>.\<close>

theorem stripPort_bracketed_witness:
  "startsWith ''[::1]:80'' ''['' \<and> stripPort ''[::1]:80'' = ''[::1]''"
  using stripPort_bracketed [of "''[::1]:80''"] by simp

text \<open>
  Claim C3 as stated fails: \<open>[192.0.2.1:443\<close> starts with \<open>[\<close> and has no closing
  bracket, and \<open>stripPort\<close> does not return it unchanged.
\<close>

theorem stripPort_unclosed_counterexample:
  "startsWith ''[192.0.2.1:443'' ''['' \<and> indexOf ''[192.0.2.1:443'' (CHR '']'') = None \<and>
   stripPort ''[192.0.2.1:443'' = ''[192.0.2.1'' \<and>
   stripPort ''[192.0.2.1:443'' \<noteq> ''[192.0.2.1:443''"
  by code_simp

section \<open>Properties of \<open>getRegionCode\<close>\<close>

lemma includes_str_iff: "includes_str s c \<longleftrightarrow> c \<in> set s"
  by (simp add: includes_str_def indexOf_None_iff)

lemma getRegionCode_Some:
  "getRegionCode cy rg = Some x \<longleftrightarrow>
     (\<exists>c r. cy = Some c \<and> rg = Some r \<and> c \<noteq> [] \<and> r \<noteq> [] \<and>
        (if CHR ''-'' \<in> set r then x = r else x = c @ ''-'' @ r))"
  by (auto simp: getRegionCode_def includes_str_iff split: option.splits)

lemma getRegionCode_has_separator:
  "getRegionCode cy rg = Some x \<Longrightarrow> CHR ''-'' \<in> set x"
  by (auto simp: getRegionCode_Some split: if_splits)

lemma getRegionCode_idem:
  "getRegionCode cy (getRegionCode cy rg) = getRegionCode cy rg"
proof (cases "getRegionCode cy rg")
  case None
  then show ?thesis by (simp add: getRegionCode_def split: option.splits)
next
  case (Some x)
  then have "CHR ''-'' \<in> set x" by (rule getRegionCode_has_separator)
  moreover from Some obtain c where "cy = Some c" "c \<noteq> []"
    by (auto simp: getRegionCode_Some)
  moreover from Some have "x \<noteq> []" by (auto simp: getRegionCode_Some split: if_splits)
  ultimately show ?thesis using Some
    by (simp add: getRegionCode_def includes_str_iff)
qed

lemma providerTier_region:
  "providerTier w e headers ps s = (Some loc, s') \<Longrightarrow>
     \<exists>r. region loc = getRegionCode (country loc) r"
  by (induction ps arbitrary: s) (auto simp: Let_def split: if_splits)

lemma dbLookup_region:
  "dbLookup w e db ip s = (Some loc, s') \<Longrightarrow>
     \<exists>r. region loc = getRegionCode (country loc) r"
  by (auto simp: dbLookup_def Let_def split: option.splits)

lemma databaseTier_region:
  "databaseTier w e ip s = (Some loc, s') \<Longrightarrow>
     \<exists>r. region loc = getRegionCode (country loc) r"
  by (auto simp: databaseTier_def Let_def split: option.splits if_splits dest: dbLookup_region)

lemma getLocation_region:
  "getLocation w e ip headers hasPayloadIP s = (Some loc, s') \<Longrightarrow>
     \<exists>r. region loc = getRegionCode (country loc) r"
  by (auto simp: getLocation_def Let_def split: option.splits if_splits prod.splits
        dest: providerTier_region databaseTier_region)

text \<open>
  Claim C8, as the code has it.  \<open>getRegionCode\<close> gives \<open>US-06\<close> for the country
  \<open>US\<close> and the subdivision \<open>06\<close>, and \<open>US-CA\<close> for the subdivision \<open>US-CA\<close>.
  With a non-empty country, a subdivision that contains the separator is returned
  as it is, whatever its shape, and a bare non-empty subdivision is appended to the
  country and the separator.  When the country or the subdivision is absent or
  empty the region is undefined.  Applying the function to its own result changes
  nothing.  The region of every location that \<open>getLocation\<close> returns, from the
  header tier or from the database, is \<open>getRegionCode\<close> of the location's country
  and a subdivision.
\<close>

theorem getRegionCode_compound:
  "getRegionCode (Some ''US'') (Some ''06'') = Some ''US-06'' \<and>
   getRegionCode (Some ''US'') (Some ''US-CA'') = Some ''US-CA'' \<and>
   getRegionCode (Some c) (Some r) =
     (if c = [] \<or> r = [] then None
      else if CHR ''-'' \<in> set r then Some r
      else Some (c @ ''-'' @ r)) \<and>
   getRegionCode None rg = None \<and>
   getRegionCode cy None = None \<and>
   getRegionCode cy (getRegionCode cy rg) = getRegionCode cy rg \<and>
   (getLocation w e ip headers hasPayloadIP s = (Some loc, s') \<longrightarrow>
      (\<exists>sub. region loc = getRegionCode (country loc) sub))"
proof -
  have ex1: "getRegionCode (Some ''US'') (Some ''06'') = Some ''US-06''" by code_simp
  have ex2: "getRegionCode (Some ''US'') (Some ''US-CA'') = Some ''US-CA''" by code_simp
  have both: "getRegionCode (Some c) (Some r) =
     (if c = [] \<or> r = [] then None
      else if CHR ''-'' \<in> set r then Some r
      else Some (c @ ''-'' @ r))"
    by (simp add: getRegionCode_def includes_str_iff)
  have n1: "getRegionCode None rg = None" by (simp add: getRegionCode_def)
  have n2: "getRegionCode cy None = None" by (simp add: getRegionCode_def split: option.splits)
  have loc: "getLocation w e ip headers hasPayloadIP s = (Some loc, s') \<longrightarrow>
      (\<exists>sub. region loc = getRegionCode (country loc) sub)"
    using getLocation_region by blast
  from ex1 ex2 both n1 n2 getRegionCode_idem [of cy rg] loc show ?thesis by (intro conjI)
qed

text \<open>
  The theorem of C8 at the country \<open>DE\<close> with the subdivisions \<open>DE-BY\<close>, \<open>BY\<close> and
  the empty one.
\<close>

theorem getRegionCode_compound_witness:
  "getRegionCode (Some ''DE'') (Some ''DE-BY'') = Some ''DE-BY'' \<and>
   getRegionCode (Some ''DE'') (Some ''BY'') = Some ''DE-BY'' \<and>
   getRegionCode (Some ''DE'') (Some []) = None"
proof -
  note both = getRegionCode_compound [THEN conjunct2, THEN conjunct2, THEN conjunct1]
  have "getRegionCode (Some ''DE'') (Some ''DE-BY'') = Some ''DE-BY''"
    using both [of "''DE''" "''DE-BY''"] by simp
  moreover have "getRegionCode (Some ''DE'') (Some ''BY'') = Some ''DE-BY''"
    using both [of "''DE''" "''BY''"] by simp
  moreover have "getRegionCode (Some ''DE'') (Some []) = None"
    using both [of "''DE''" "[]"] by simp
  ultimately show ?thesis by simp
qed

text \<open>
  Claim C8 as stated fails: the region is not always undefined or a two-part code
  of the country and a subdivision.  For the country \<open>US\<close> the subdivisions
  \<open>FR-A-B\<close> and \<open>-\<close> are returned as they are, and \<open>getLocation\<close> returns such a
  region from the header \<open>cf-region-code\<close>.
\<close>

theorem getRegionCode_verbatim_counterexample:
  "getRegionCode (Some ''US'') (Some ''FR-A-B'') = Some ''FR-A-B'' \<and>
   getRegionCode (Some ''US'') (Some ''-'') = Some ''-'' \<and>
   fst (getLocation exampleWorld exampleEnv ''198.51.100.23''
          (headersOf [''cf-ipcountry'' \<mapsto> ''US'', ''cf-region-code'' \<mapsto> ''FR-A-B''])
          False exampleState) =
     Some \<lparr>country = Some ''US'', region = Some ''FR-A-B'', city = None\<rparr>"
proof -
  have a: "getRegionCode (Some ''US'') (Some ''FR-A-B'') = Some ''FR-A-B''" by code_simp
  have b: "getRegionCode (Some ''US'') (Some ''-'') = Some ''-''" by code_simp
  have l: "lowerCase ''cf-ipcountry'' = ''cf-ipcountry''"
    "lowerCase ''cf-region-code'' = ''cf-region-code''"
    "lowerCase ''cf-ipcity'' = ''cf-ipcity''"
    by (simp_all add: lowerCase_def lowerChar_def)
  have "fst (getLocation exampleWorld exampleEnv ''198.51.100.23''
          (headersOf [''cf-ipcountry'' \<mapsto> ''US'', ''cf-region-code'' \<mapsto> ''FR-A-B''])
          False exampleState) =
     Some \<lparr>country = Some ''US'', region = Some ''FR-A-B'', city = None\<rparr>"
    by (simp add: getLocation_def PROVIDER_HEADERS_def Let_def headersOf_def l truthy_def
          decodeHeader_def debugLog_def emit_def exampleWorld_def exampleEnv_def
          exampleState_def a)
  with a b show ?thesis by simp
qed

section \<open>Properties of \<open>getDevice\<close>\<close>

lemma split_str_nonempty: "split_str s c \<noteq> []"
  by (induction s) (auto split: list.splits)

lemma split_str_first:
  "(case split_str s c of [] \<Rightarrow> [] | w # ws \<Rightarrow> w) = takeWhile (\<lambda>x. x \<noteq> c) s"
  by (induction s) (auto split: list.splits)

lemma dropWhile_self: "xs = [] \<or> \<not> P (hd xs) \<Longrightarrow> dropWhile P xs = xs"
  by (cases xs) auto

lemma trim_self:
  assumes "s \<noteq> []" "\<not> isWhiteSpace (hd s)" "\<not> isWhiteSpace (last s)"
  shows "trim s = s"
proof -
  have a: "dropWhile isWhiteSpace s = s" using assms(2) by (simp add: dropWhile_self)
  have "hd (rev s) = last s" using assms(1) by (simp add: hd_rev)
  then have b: "dropWhile isWhiteSpace (rev s) = rev s"
    using assms(3) by (simp add: dropWhile_self)
  show ?thesis by (simp add: trim_def a b)
qed

lemma digit_not_space: "isDigit c \<Longrightarrow> \<not> isWhiteSpace c"
  by (auto simp: isDigit_def isWhiteSpace_def)

lemma digit_not_special:
  assumes "isDigit c"
  shows "c \<noteq> CHR ''x''" "c \<noteq> CHR ''X''" "c \<noteq> CHR ''o''" "c \<noteq> CHR ''O''"
    "c \<noteq> CHR ''b''" "c \<noteq> CHR ''B''" "c \<noteq> CHR ''+''" "c \<noteq> CHR ''-''"
    "c \<noteq> CHR ''.''" "c \<noteq> CHR ''I''" "\<not> isExponentIndicator c"
  using assms by (auto simp: isDigit_def isExponentIndicator_def)

lemma unsignedDecimal_digits:
  assumes "isDecimal w"
  shows "unsignedDecimal w = Finite (of_nat (digitsValue w))"
proof -
  from assms have ne: "w \<noteq> []" and all: "\<forall>c \<in> set w. isDigit c"
    by (auto simp: isDecimal_def list_all_iff)
  from ne all have "isDigit (hd w)" by (cases w) auto
  then have "hd w \<noteq> CHR ''I''" by (rule digit_not_special)
  with ne have inf: "w \<noteq> ''Infinity''" by auto
  have m: "takeWhile (\<lambda>c. \<not> isExponentIndicator c) w = w"
    using all digit_not_special(11) by (simp add: takeWhile_eq_all_conv)
  have r: "dropWhile (\<lambda>c. \<not> isExponentIndicator c) w = []"
    using all digit_not_special(11) by simp
  have i: "takeWhile (\<lambda>c. c \<noteq> CHR ''.'') w = w"
    using all digit_not_special(9) by (simp add: takeWhile_eq_all_conv)
  have f: "dropWhile (\<lambda>c. c \<noteq> CHR ''.'') w = []"
    using all digit_not_special(9) by simp
  have l: "list_all isDigit w" using all by (simp add: list_all_iff)
  show ?thesis
    using inf ne l by (simp add: unsignedDecimal_def Let_def m r i f scale10_def)
qed

lemma toNumber_digits:
  assumes "isDecimal w"
  shows "toNumber w = Finite (of_nat (digitsValue w))"
proof -
  from assms have ne: "w \<noteq> []" and all: "\<forall>c \<in> set w. isDigit c"
    by (auto simp: isDecimal_def list_all_iff)
  from ne all have h: "isDigit (hd w)" by (cases w) auto
  from ne all have la: "isDigit (last w)" by simp
  have t: "trim w = w"
    using ne h la by (simp add: trim_self digit_not_space)
  have second: "\<not> startsWith w [a, b]" if "\<not> isDigit b" for a b
  proof (cases w)
    case Nil
    then show ?thesis by simp
  next
    case (Cons x xs)
    show ?thesis
    proof (cases xs)
      case Nil
      with Cons show ?thesis by simp
    next
      case (Cons y ys)
      with \<open>w = x # xs\<close> all have "isDigit y" by simp
      with that Cons \<open>w = x # xs\<close> show ?thesis by auto
    qed
  qed
  have nd: "\<not> isDigit (CHR ''x'')" "\<not> isDigit (CHR ''X'')" "\<not> isDigit (CHR ''o'')"
    "\<not> isDigit (CHR ''O'')" "\<not> isDigit (CHR ''b'')" "\<not> isDigit (CHR ''B'')"
    by (simp_all add: isDigit_def)
  have p: "\<not> startsWith w ''0x''" "\<not> startsWith w ''0X''" "\<not> startsWith w ''0o''"
    "\<not> startsWith w ''0O''" "\<not> startsWith w ''0b''" "\<not> startsWith w ''0B''"
    using second nd by blast+
  have sg: "\<not> startsWith w ''+''" "\<not> startsWith w ''-''"
    using ne h digit_not_special(7,8) [of "hd w"] by (cases w; simp)+
  show ?thesis
    using ne p sg by (simp add: toNumber_def Let_def t unsignedDecimal_digits [OF assms])
qed

lemma atMost1920_nat: "atMost1920 (Finite (of_nat n)) \<longleftrightarrow> n \<le> 1920"
proof (cases "n \<le> 1920")
  case True
  then have "(of_nat n :: rat) \<le> of_nat 1920" by (simp only: of_nat_le_iff)
  then have "(of_nat n :: rat) \<le> 1920 + 1 / 2 ^ 43" by simp
  with True show ?thesis by (simp add: atMost1920_def)
next
  case False
  then have "1921 \<le> n" by simp
  then have "(of_nat 1921 :: rat) \<le> of_nat n" by (simp only: of_nat_le_iff)
  then have "\<not> (of_nat n :: rat) \<le> 1920 + 1 / 2 ^ 43" by simp
  with False show ?thesis by (simp add: atMost1920_def)
qed


lemmas number_defs = toNumber_def trim_def isWhiteSpace_def unsignedDecimal_def
  isExponentIndicator_def signedInteger_def isDecimal_def isDigit_def digitsValue_def
  scale10_def radixLiteral_def radixDigit_def negate_def atMost1920_def Let_def

lemma getDevice_cases:
  "getDevice deviceType userAgent screen =
     (let t = (case deviceType userAgent of None \<Rightarrow> ''desktop''
               | Some t \<Rightarrow> (if t = [] then ''desktop'' else t))
      in if t = ''desktop'' \<and> screen \<noteq> [] \<and>
            atMost1920 (toNumber (takeWhile (\<lambda>c. c \<noteq> CHR ''x'') screen))
         then ''laptop'' else t)"
  by (simp add: getDevice_def Let_def split_str_first)

lemma getDevice_desktop:
  assumes "deviceType userAgent \<in> {None, Some [], Some ''desktop''}"
  shows "getDevice deviceType userAgent screen =
        (if screen \<noteq> [] \<and> atMost1920 (toNumber (takeWhile (\<lambda>c. c \<noteq> CHR ''x'') screen))
         then ''laptop'' else ''desktop'')"
  using assms by (auto simp: getDevice_cases Let_def)

text \<open>
  Claim C9, as the code has it.  The result of \<open>getDevice\<close> is never empty.  A
  parsed type other than \<open>desktop\<close> is returned as it is.  When the parser yields no
  type, or \<open>desktop\<close>, the result is \<open>laptop\<close> exactly when the screen string is
  not empty and the text before its first \<open>x\<close>, converted to a number, is at most
  1920, and \<open>desktop\<close> otherwise.  The test is on the screen string, not on the
  width: an empty width converts to \<open>0\<close>, so \<open>x768\<close> gives \<open>laptop\<close>; a width that
  is not a number never does.  So \<open>1366x768\<close> gives \<open>laptop\<close>, \<open>2560x1440\<close> and
  the empty screen give \<open>desktop\<close>, and the widths \<open>1e3\<close>, \<open>-5\<close> and \<open>0X10\<close> give
  \<open>laptop\<close>.  For a width written in decimal digits the comparison is the
  comparison of its value with 1920.
\<close>

theorem getDevice_reclassify:
  "getDevice deviceType userAgent screen \<noteq> [] \<and>
   (deviceType userAgent = Some t \<and> t \<noteq> [] \<and> t \<noteq> ''desktop'' \<longrightarrow>
      getDevice deviceType userAgent screen = t) \<and>
   (deviceType userAgent \<in> {None, Some [], Some ''desktop''} \<longrightarrow>
      getDevice deviceType userAgent screen =
        (if screen \<noteq> [] \<and> atMost1920 (toNumber (takeWhile (\<lambda>c. c \<noteq> CHR ''x'') screen))
         then ''laptop'' else ''desktop'') \<and>
      getDevice deviceType userAgent ''1366x768'' = ''laptop'' \<and>
      getDevice deviceType userAgent ''2560x1440'' = ''desktop'' \<and>
      getDevice deviceType userAgent '''' = ''desktop'' \<and>
      getDevice deviceType userAgent ''x768'' = ''laptop'' \<and>
      getDevice deviceType userAgent ''1920x1080'' = ''laptop'' \<and>
      getDevice deviceType userAgent ''1921x1080'' = ''desktop'' \<and>
      getDevice deviceType userAgent ''1e3x768'' = ''laptop'' \<and>
      getDevice deviceType userAgent ''-5x5'' = ''laptop'' \<and>
      getDevice deviceType userAgent ''1920.5x1080'' = ''desktop'' \<and>
      getDevice deviceType userAgent ''widex768'' = ''desktop'' \<and>
      getDevice deviceType userAgent ''0X10x9'' = ''laptop'' \<and>
      getDevice deviceType userAgent ''1280'' = ''laptop'') \<and>
   (isDecimal w \<longrightarrow>
      toNumber w = Finite (of_nat (digitsValue w)) \<and>
      atMost1920 (toNumber w) = (digitsValue w \<le> 1920)) \<and>
   toNumber [] = Finite 0 \<and>
   atMost1920 (Finite v) = (v \<le> 1920 + 1 / 2 ^ 43) \<and>
   \<not> atMost1920 NaN"
proof -
  have a: "getDevice deviceType userAgent screen \<noteq> []"
    by (simp add: getDevice_cases Let_def split: option.splits)
  have b: "deviceType userAgent = Some t \<and> t \<noteq> [] \<and> t \<noteq> ''desktop'' \<longrightarrow>
      getDevice deviceType userAgent screen = t"
    by (simp add: getDevice_cases Let_def)
  have c: "getDevice deviceType userAgent screen =
        (if screen \<noteq> [] \<and> atMost1920 (toNumber (takeWhile (\<lambda>c. c \<noteq> CHR ''x'') screen))
         then ''laptop'' else ''desktop'') \<and>
      getDevice deviceType userAgent ''1366x768'' = ''laptop'' \<and>
      getDevice deviceType userAgent ''2560x1440'' = ''desktop'' \<and>
      getDevice deviceType userAgent '''' = ''desktop'' \<and>
      getDevice deviceType userAgent ''x768'' = ''laptop'' \<and>
      getDevice deviceType userAgent ''1920x1080'' = ''laptop'' \<and>
      getDevice deviceType userAgent ''1921x1080'' = ''desktop'' \<and>
      getDevice deviceType userAgent ''1e3x768'' = ''laptop'' \<and>
      getDevice deviceType userAgent ''-5x5'' = ''laptop'' \<and>
      getDevice deviceType userAgent ''1920.5x1080'' = ''desktop'' \<and>
      getDevice deviceType userAgent ''widex768'' = ''desktop'' \<and>
      getDevice deviceType userAgent ''0X10x9'' = ''laptop'' \<and>
      getDevice deviceType userAgent ''1280'' = ''laptop''"
    if d: "deviceType userAgent \<in> {None, Some [], Some ''desktop''}"
    using d by (simp add: getDevice_desktop [of deviceType userAgent] number_defs)
  have e: "isDecimal w \<longrightarrow>
      toNumber w = Finite (of_nat (digitsValue w)) \<and>
      atMost1920 (toNumber w) = (digitsValue w \<le> 1920)"
    by (simp add: toNumber_digits atMost1920_nat)
  have f: "toNumber [] = Finite 0" by (simp add: toNumber_def trim_def)
  have g: "atMost1920 (Finite v) = (v \<le> 1920 + 1 / 2 ^ 43)" by (simp add: atMost1920_def)
  have h: "\<not> atMost1920 NaN" by (simp add: atMost1920_def)
  from a b c e f g h show ?thesis by blast
qed

text \<open>
  The theorem of C9 for a parser that knows one television and no other device, at
  the widths 1280, 1600 and 3840.
\<close>

theorem getDevice_reclassify_witness:
  "getDevice (\<lambda>ua. if ua = ''tv'' then Some ''smarttv'' else None) ''tv'' ''1280x720''
     = ''smarttv'' \<and>
   getDevice (\<lambda>ua. if ua = ''tv'' then Some ''smarttv'' else None) ''pc'' ''1600x900''
     = ''laptop'' \<and>
   getDevice (\<lambda>ua. if ua = ''tv'' then Some ''smarttv'' else None) ''pc'' ''3840x2160''
     = ''desktop''"
proof -
  let ?d = "\<lambda>ua. if ua = ''tv'' then Some ''smarttv'' else None"
  note other = getDevice_reclassify [THEN conjunct2, THEN conjunct1]
  note desk = getDevice_reclassify [THEN conjunct2, THEN conjunct2, THEN conjunct1, THEN mp,
    THEN conjunct1]
  have pc: "?d ''pc'' \<in> {None, Some [], Some ''desktop''}" by simp
  have "getDevice ?d ''tv'' ''1280x720'' = ''smarttv''"
    using other [of ?d "''tv''" "''smarttv''" "''1280x720''"] by simp
  moreover have "getDevice ?d ''pc'' ''1600x900'' = ''laptop''"
    using desk [of ?d "''pc''" "''1600x900''"] pc by (simp add: number_defs)
  moreover have "getDevice ?d ''pc'' ''3840x2160'' = ''desktop''"
    using desk [of ?d "''pc''" "''3840x2160''"] pc by (simp add: number_defs)
  ultimately show ?thesis by simp
qed

text \<open>
  Claim C9 as stated fails: the screen \<open>x768\<close> has no width, and a desktop device
  is reclassified as \<open>laptop\<close> all the same.
\<close>

theorem getDevice_width_counterexample:
  "(case split_str ''x768'' (CHR ''x'') of [] \<Rightarrow> [] | w # ws \<Rightarrow> w) = [] \<and>
   getDevice (\<lambda>ua. None) ''Mozilla/5.0 (X11; Linux x86_64)'' ''x768'' = ''laptop''"
  by (simp add: getDevice_def number_defs)

section \<open>Properties of \<open>getIpAddress\<close>\<close>

lemma forGroup_nonempty: "forGroup rest = Some g \<Longrightarrow> g \<noteq> []"
  by (auto simp: forGroup_def Let_def split: if_splits)

lemma matchFor_nonempty: "matchFor v = Some g \<Longrightarrow> g \<noteq> []"
proof (induction v)
  case Nil
  then show ?case by simp
next
  case (Cons c cs)
  show ?case
  proof (cases "startsWith (c # cs) ''for=''")
    case True
    show ?thesis
    proof (cases "forGroup (drop 4 (c # cs))")
      case None
      with True Cons.prems have "matchFor cs = Some g"
        by (simp only: matchFor.simps if_True option.case)
      then show ?thesis by (rule Cons.IH)
    next
      case (Some h)
      with True Cons.prems have "h = g"
        by (simp only: matchFor.simps if_True option.case option.inject)
      with Some show ?thesis using forGroup_nonempty by blast
    qed
  next
    case False
    with Cons.prems have "matchFor cs = Some g"
      by (simp only: matchFor.simps if_False)
    then show ?thesis by (rule Cons.IH)
  qed
qed


lemma selectIp_Cons:
  "selectIp headers (name # names) =
     (if truthy (headers name) \<and> extractIp name (the (headers name)) \<noteq> [] \<and>
         \<not> isPrivate (extractIp name (the (headers name)))
      then Some (extractIp name (the (headers name)))
      else selectIp headers names)"
  by (simp add: truthy_def Let_def split: option.splits)

lemma selectIp_nonempty: "selectIp headers names = Some x \<Longrightarrow> x \<noteq> []"
proof (induction names)
  case Nil
  then show ?case by simp
next
  case (Cons name names)
  show ?case
  proof (cases "truthy (headers name) \<and> extractIp name (the (headers name)) \<noteq> [] \<and>
         \<not> isPrivate (extractIp name (the (headers name)))")
    case True
    with Cons.prems have "x = extractIp name (the (headers name))"
      by (simp add: selectIp_Cons del: selectIp.simps)
    with True show ?thesis by simp
  next
    case False
    with Cons.prems have "selectIp headers names = Some x"
      by (simp add: selectIp_Cons del: selectIp.simps)
    then show ?thesis by (rule Cons.IH)
  qed
qed

lemma customIp_nonempty: "ip \<noteq> [] \<Longrightarrow> customIp customHeader ip \<noteq> []"
  by (auto simp: customIp_def split: option.splits dest: matchFor_nonempty)

lemma getIpAddress_override:
  "CLIENT_IP_HEADER e = Some customHeader \<Longrightarrow> customHeader \<noteq> [] \<Longrightarrow>
   headers customHeader = Some v \<Longrightarrow> v \<noteq> [] \<Longrightarrow>
   getIpAddress e headers = Some (customIp customHeader v)"
  by (simp add: getIpAddress_def truthy_def)


lemma getIpAddress_default:
  assumes "CLIENT_IP_HEADER e = None \<or> CLIENT_IP_HEADER e = Some [] \<or>
   (\<exists>c. CLIENT_IP_HEADER e = Some c \<and> \<not> truthy (headers c))"
  shows "getIpAddress e headers = selectIp headers IP_ADDRESS_HEADERS"
proof -
  have t: "(if truthy (selectIp headers IP_ADDRESS_HEADERS)
            then selectIp headers IP_ADDRESS_HEADERS else None) =
           selectIp headers IP_ADDRESS_HEADERS"
    by (cases "selectIp headers IP_ADDRESS_HEADERS")
       (auto simp: truthy_def dest: selectIp_nonempty)
  from assms show ?thesis
    unfolding getIpAddress_def t by (auto split: option.splits)
qed

text \<open>
  Claim C10.  \<open>getIpAddress\<close> never returns the empty string, for any headers and
  any configuration: its result is \<open>null\<close> or a non-empty string.  In the loop over
  the precedence list a header whose extracted value is empty is skipped.  In the
  override branch an empty first element of \<open>x-forwarded-for\<close>, and a \<open>forwarded\<close>
  value with no \<open>for=\<close> token, give the raw header value, and the group of a match
  is never empty.
\<close>

theorem getIpAddress_never_empty:
  "getIpAddress e headers \<noteq> Some [] \<and>
   (headers name = Some v \<and> extractIp name v = [] \<longrightarrow>
      selectIp headers (name # names) = selectIp headers names) \<and>
   (v \<noteq> [] \<and> firstForwarded v = [] \<longrightarrow> customIp ''x-forwarded-for'' v = v) \<and>
   (v \<noteq> [] \<and> matchFor v = None \<longrightarrow> customIp ''forwarded'' v = v) \<and>
   matchFor v \<noteq> Some []"
proof -
  have a: "getIpAddress e headers \<noteq> Some []"
  proof (cases "\<exists>c v. CLIENT_IP_HEADER e = Some c \<and> c \<noteq> [] \<and> headers c = Some v \<and> v \<noteq> []")
    case True
    then obtain c v where "CLIENT_IP_HEADER e = Some c" "c \<noteq> []" "headers c = Some v" "v \<noteq> []"
      by blast
    then show ?thesis
      using getIpAddress_override [of e c headers v] customIp_nonempty [of v c] by simp
  next
    case False
    then have "CLIENT_IP_HEADER e = None \<or> CLIENT_IP_HEADER e = Some [] \<or>
      (\<exists>c. CLIENT_IP_HEADER e = Some c \<and> \<not> truthy (headers c))"
      by (cases "CLIENT_IP_HEADER e") (auto simp: truthy_def split: option.splits)
    then have "getIpAddress e headers = selectIp headers IP_ADDRESS_HEADERS"
      by (rule getIpAddress_default)
    then show ?thesis using selectIp_nonempty [of headers IP_ADDRESS_HEADERS "[]"] by auto
  qed
  have b: "headers name = Some v \<and> extractIp name v = [] \<longrightarrow>
      selectIp headers (name # names) = selectIp headers names"
    by (simp add: selectIp_Cons del: selectIp.simps)
  have c: "v \<noteq> [] \<and> firstForwarded v = [] \<longrightarrow> customIp ''x-forwarded-for'' v = v"
    by (simp add: customIp_def)
  have d: "v \<noteq> [] \<and> matchFor v = None \<longrightarrow> customIp ''forwarded'' v = v"
    by (simp add: customIp_def)
  have f: "matchFor v \<noteq> Some []"
    using matchFor_nonempty [of v "[]"] by auto
  from a b c d f show ?thesis by (intro conjI)
qed

text \<open>
  The theorem of C10 at an \<open>x-forwarded-for\<close> value whose first element is blank:
  the loop passes on to \<open>x-real-ip\<close>, the override branch returns the raw value.
\<close>

theorem getIpAddress_never_empty_witness:
  "selectIp [''x-forwarded-for'' \<mapsto> '' , 198.51.100.7'', ''x-real-ip'' \<mapsto> ''198.51.100.9'']
     [''x-forwarded-for'', ''x-real-ip''] = Some ''198.51.100.9'' \<and>
   customIp ''x-forwarded-for'' '' , 198.51.100.7'' = '' , 198.51.100.7''"
proof -
  let ?h = "[''x-forwarded-for'' \<mapsto> '' , 198.51.100.7'', ''x-real-ip'' \<mapsto> ''198.51.100.9'']"
  have x: "extractIp ''x-forwarded-for'' '' , 198.51.100.7'' = []" by code_simp
  have y: "firstForwarded '' , 198.51.100.7'' = []" by code_simp
  have p: "\<not> isPrivate ''198.51.100.9''" by (simp add: isPrivate_def)
  have z: "selectIp ?h [''x-real-ip''] = Some ''198.51.100.9''"
    using p by (simp add: selectIp_Cons extractIp_def truthy_def del: selectIp.simps)
  note skip = getIpAddress_never_empty [THEN conjunct2, THEN conjunct1]
  note raw = getIpAddress_never_empty [THEN conjunct2, THEN conjunct2, THEN conjunct1]
  have "selectIp ?h [''x-forwarded-for'', ''x-real-ip''] = selectIp ?h [''x-real-ip'']"
    using skip [of ?h "''x-forwarded-for''" "'' , 198.51.100.7''" "[''x-real-ip'']"] x
    by (simp del: selectIp.simps)
  moreover have "customIp ''x-forwarded-for'' '' , 198.51.100.7'' = '' , 198.51.100.7''"
    using raw [of "'' , 198.51.100.7''"] y by simp
  ultimately show ?thesis using z by (simp del: selectIp.simps)
qed

lemma split_str_hd_no_sep: "split_str s c = x # xs \<Longrightarrow> c \<notin> set x"
  by (induction s arbitrary: x xs) (auto split: if_splits list.splits)

lemma split_str_no_sep: "c \<notin> set s \<Longrightarrow> split_str s c = [s]"
  by (induction s) auto

lemma set_trim: "set (trim s) \<subseteq> set s"
proof -
  have "set (dropWhile isWhiteSpace (rev (dropWhile isWhiteSpace s)))
          \<subseteq> set (rev (dropWhile isWhiteSpace s))"
    by (meson set_dropWhileD subsetI)
  also have "\<dots> \<subseteq> set s" using set_dropWhileD [of _ isWhiteSpace s] by auto
  finally show ?thesis by (simp add: trim_def)
qed

lemma last_dropWhile_eq: "dropWhile P xs \<noteq> [] \<Longrightarrow> last (dropWhile P xs) = last xs"
proof -
  assume n: "dropWhile P xs \<noteq> []"
  have "last xs = last (takeWhile P xs @ dropWhile P xs)" by simp
  also have "\<dots> = last (dropWhile P xs)" using n by (rule last_appendR)
  finally show ?thesis by simp
qed

lemma trim_idem: "trim (trim s) = trim s"
proof -
  define t where "t = dropWhile isWhiteSpace s"
  define u where "u = dropWhile isWhiteSpace (rev t)"
  have tr: "trim s = rev u" by (simp add: trim_def t_def u_def)
  have t_hd: "t = [] \<or> \<not> isWhiteSpace (hd t)"
    unfolding t_def using hd_dropWhile [of isWhiteSpace s] by blast
  have u_hd: "u = [] \<or> \<not> isWhiteSpace (hd u)"
    unfolding u_def using hd_dropWhile [of isWhiteSpace "rev t"] by blast
  have "rev u = [] \<or> \<not> isWhiteSpace (hd (rev u))"
  proof (cases "u = []")
    case True
    then show ?thesis by simp
  next
    case False
    then have "last u = last (rev t)" unfolding u_def by (rule last_dropWhile_eq)
    moreover from False have "t \<noteq> []" by (auto simp: u_def)
    ultimately have "last u = hd t" by (simp add: last_rev)
    moreover have "hd (rev u) = last u" using False by (simp add: hd_rev)
    ultimately show ?thesis using t_hd \<open>t \<noteq> []\<close> by simp
  qed
  then have a: "dropWhile isWhiteSpace (rev u) = rev u" by (rule dropWhile_self)
  have b: "dropWhile isWhiteSpace u = u" using u_hd by (rule dropWhile_self)
  show ?thesis unfolding tr by (simp add: trim_def a b)
qed

lemma firstForwarded_no_comma: "CHR '','' \<notin> set (firstForwarded v)"
proof (cases "split_str v (CHR '','')")
  case Nil
  then show ?thesis by (simp add: firstForwarded_def)
next
  case (Cons x xs)
  then have "CHR '','' \<notin> set x" by (rule split_str_hd_no_sep)
  with Cons show ?thesis using set_trim [of x] by (auto simp: firstForwarded_def)
qed

lemma firstForwarded_idem: "firstForwarded (firstForwarded v) = firstForwarded v"
proof (cases "split_str v (CHR '','')")
  case Nil
  then show ?thesis using split_str_nonempty [of v "CHR '',''"] by simp
next
  case (Cons x xs)
  then have f: "firstForwarded v = trim x" by (simp add: firstForwarded_def)
  have "CHR '','' \<notin> set (trim x)" using firstForwarded_no_comma [of v] f by simp
  then have "split_str (trim x) (CHR '','') = [trim x]" by (rule split_str_no_sep)
  then have "firstForwarded (trim x) = trim (trim x)" by (simp add: firstForwarded_def)
  with f show ?thesis by (simp add: trim_idem)
qed

lemma firstForwarded_Nil: "firstForwarded [] = []"
  by (simp add: firstForwarded_def trim_def)

lemma extractIp_xff: "extractIp ''x-forwarded-for'' v = firstForwarded v"
  by (simp add: extractIp_def)

lemma selectIp_xff:
  "selectIp (headers(''x-forwarded-for'' \<mapsto> v)) names =
   selectIp (headers(''x-forwarded-for'' \<mapsto> firstForwarded v)) names"
proof (induction names)
  case Nil
  then show ?case by simp
next
  case (Cons name names)
  show ?case
  proof (cases "name = ''x-forwarded-for''")
    case True
    have "firstForwarded v \<noteq> [] \<Longrightarrow> v \<noteq> []" using firstForwarded_Nil by auto
    then show ?thesis
      using Cons.IH True
      by (auto simp add: selectIp_Cons truthy_def extractIp_xff firstForwarded_idem
            simp del: selectIp.simps)
  next
    case False
    then show ?thesis
      using Cons.IH by (simp add: selectIp_Cons del: selectIp.simps)
  qed
qed


lemma selectIp_xff_only:
  "selectIp [''x-forwarded-for'' \<mapsto> v] IP_ADDRESS_HEADERS =
     (if firstForwarded v \<noteq> [] \<and> \<not> isPrivate (firstForwarded v)
      then Some (firstForwarded v) else None)"
proof -
  have "firstForwarded v \<noteq> [] \<Longrightarrow> v \<noteq> []" using firstForwarded_Nil by auto
  then show ?thesis
    by (auto simp add: IP_ADDRESS_HEADERS_def selectIp_Cons truthy_def extractIp_xff
          simp del: selectIp.simps(2))
qed

lemma firstForwarded_ex1: "firstForwarded ''10.0.0.1, 203.0.113.5'' = ''10.0.0.1''"
  by code_simp

lemma firstForwarded_ex2: "firstForwarded ''203.0.113.5, 10.0.0.1'' = ''203.0.113.5''"
  by code_simp


lemma firstForwarded_eq:
  "firstForwarded v = trim (takeWhile (\<lambda>c. c \<noteq> CHR '','') v)"
proof (cases "split_str v (CHR '','')")
  case Nil
  then show ?thesis using split_str_nonempty [of v "CHR '',''"] by simp
next
  case (Cons x xs)
  then show ?thesis
    using split_str_first [of v "CHR '',''"] by (simp add: firstForwarded_def)
qed

lemma lowerCase_IP_ADDRESS_HEADERS: "\<forall>n \<in> set IP_ADDRESS_HEADERS. lowerCase n = n"
  by (simp add: IP_ADDRESS_HEADERS_def lowerCase_def lowerChar_def)

lemma selectIp_cong:
  "\<forall>n \<in> set names. h n = h' n \<Longrightarrow> selectIp h names = selectIp h' names"
  by (induction names) (simp_all add: selectIp_Cons del: selectIp.simps(2))

lemma selectIp_headersOf:
  "selectIp (headersOf m) IP_ADDRESS_HEADERS = selectIp m IP_ADDRESS_HEADERS"
  using lowerCase_IP_ADDRESS_HEADERS
  by (intro selectIp_cong) (simp add: headersOf_def)

lemma overrideApplies_iff:
  "overrideApplies e headers \<longleftrightarrow>
     (\<exists>c v. CLIENT_IP_HEADER e = Some c \<and> c \<noteq> [] \<and> headers c = Some v \<and> v \<noteq> [])"
  by (auto simp: overrideApplies_def truthy_def split: option.splits)

lemma getIpAddress_no_override:
  assumes "\<not> overrideApplies e headers"
  shows "getIpAddress e headers = selectIp headers IP_ADDRESS_HEADERS"
proof -
  from assms have "CLIENT_IP_HEADER e = None \<or> CLIENT_IP_HEADER e = Some [] \<or>
      (\<exists>c. CLIENT_IP_HEADER e = Some c \<and> \<not> truthy (headers c))"
    by (cases "CLIENT_IP_HEADER e") (auto simp: overrideApplies_def)
  then show ?thesis by (rule getIpAddress_default)
qed

lemma lowerCase_xff: "lowerCase ''x-forwarded-for'' = ''x-forwarded-for''"
  by (simp add: lowerCase_def lowerChar_def)

lemma overrideApplies_xff_only:
  "overrideApplies e (headersOf [''x-forwarded-for'' \<mapsto> v]) \<longleftrightarrow>
     v \<noteq> [] \<and> (\<exists>c. CLIENT_IP_HEADER e = Some c \<and> lowerCase c = ''x-forwarded-for'')"
  by (auto simp: overrideApplies_def headersOf_def truthy_def lowerCase_def
        split: option.splits)

lemma overrideApplies_first:
  assumes "overrideApplies e (headersOf (m(''x-forwarded-for'' \<mapsto> firstForwarded v)))"
  shows "overrideApplies e (headersOf (m(''x-forwarded-for'' \<mapsto> v)))"
proof -
  from assms obtain c where c: "CLIENT_IP_HEADER e = Some c" "c \<noteq> []"
      "truthy ((m(''x-forwarded-for'' \<mapsto> firstForwarded v)) (lowerCase c))"
    by (auto simp: overrideApplies_def headersOf_def split: option.splits)
  have "truthy ((m(''x-forwarded-for'' \<mapsto> v)) (lowerCase c))"
  proof (cases "lowerCase c = ''x-forwarded-for''")
    case True
    with c(3) have "firstForwarded v \<noteq> []" by (simp add: truthy_def)
    then have "v \<noteq> []" using firstForwarded_Nil by auto
    with True show ?thesis by (simp add: truthy_def)
  next
    case False
    with c(3) show ?thesis by simp
  qed
  with c(1) c(2) show ?thesis by (simp add: overrideApplies_def headersOf_def)
qed

lemma firstForwarded_private: "firstForwarded ''10.0.0.1'' = ''10.0.0.1''" by code_simp
lemma matchFor_private: "matchFor ''10.0.0.1'' = None" by code_simp

lemma override_example:
  assumes "CLIENT_IP_HEADER e = Some c" "c \<noteq> []" "m (lowerCase c) = Some v" "v \<noteq> []"
  shows "getIpAddress e (headersOf m) = Some (customIp c v)"
  using getIpAddress_override [of e c "headersOf m" v] assms by (simp add: headersOf_def)

lemma lowerCase_forwarded: "lowerCase ''forwarded'' = ''forwarded''"
  by (simp add: lowerCase_def lowerChar_def)

lemma lowerCase_x_real_ip: "lowerCase ''x-real-ip'' = ''x-real-ip''"
  by (simp add: lowerCase_def lowerChar_def)

lemma lowerCase_XFF: "lowerCase ''X-Forwarded-For'' = ''x-forwarded-for''"
  by code_simp

lemma customIp_xff_ex1: "customIp ''x-forwarded-for'' ''10.0.0.1 , 203.0.113.5'' = ''10.0.0.1''"
  by (simp add: customIp_def firstForwarded_eq trim_def isWhiteSpace_def)

lemma customIp_xff_ex2: "customIp ''x-forwarded-for'' '', 203.0.113.5'' = '', 203.0.113.5''"
  by (simp add: customIp_def firstForwarded_eq trim_def isWhiteSpace_def)

lemma customIp_XFF_ex: "customIp ''X-Forwarded-For'' ''10.0.0.1, 203.0.113.5'' = ''10.0.0.1, 203.0.113.5''"
  by (simp add: customIp_def)

lemma matchFor_ex1: "matchFor ''for=192.168.1.20;proto=https;by=203.0.113.43'' = Some ''192.168.1.20''"
  by code_simp

lemma matchFor_ex2: "matchFor ''by=203.0.113.43;for=[2001:db8::1]:8080'' = Some ''[2001:db8::1]''"
  by code_simp

lemma matchFor_ex3: "matchFor ''proto=https;by=203.0.113.43'' = None"
  by code_simp

lemma customIp_fwd_ex1:
  "customIp ''forwarded'' ''for=192.168.1.20;proto=https;by=203.0.113.43'' = ''192.168.1.20''"
  by (simp add: customIp_def matchFor_ex1 del: matchFor.simps)

lemma customIp_fwd_ex2:
  "customIp ''forwarded'' ''by=203.0.113.43;for=[2001:db8::1]:8080'' = ''[2001:db8::1]''"
  by (simp add: customIp_def matchFor_ex2 del: matchFor.simps)

lemma customIp_fwd_ex3:
  "customIp ''forwarded'' ''proto=https;by=203.0.113.43'' = ''proto=https;by=203.0.113.43''"
  by (simp add: customIp_def matchFor_ex3 del: matchFor.simps)

lemma customIp_other_ex:
  "customIp ''x-real-ip'' ''10.0.0.1, 203.0.113.5'' = ''10.0.0.1, 203.0.113.5''"
  by (simp add: customIp_def)

text \<open>
  Claim C5, as the code has it.  The override branch is taken when
  \<open>CLIENT_IP_HEADER\<close> names a header and the request has a non-empty value for it;
  a header that is absent or present with an empty value leaves the result to the
  precedence list.  In the override branch \<open>getIpAddress\<close> returns the value without
  the test for private addresses: for the name \<open>x-forwarded-for\<close> the text before
  the first comma, trimmed (the raw value when that is empty); for the name
  \<open>forwarded\<close> the \<open>for=\<close> token (the raw value when there is none); for every other
  name, also one that differs from these two in case only, the raw value.  The
  private address \<open>10.0.0.1\<close> in the override header is returned, whatever the name
  of the header.
\<close>

theorem getIpAddress_override_header:
  "(CLIENT_IP_HEADER e = Some customHeader \<and> customHeader \<noteq> [] \<and>
    headers customHeader = Some v \<and> v \<noteq> [] \<longrightarrow>
      getIpAddress e headers =
        Some (if customHeader = ''x-forwarded-for''
              then (if trim (takeWhile (\<lambda>c. c \<noteq> CHR '','') v) = [] then v
                    else trim (takeWhile (\<lambda>c. c \<noteq> CHR '','') v))
              else if customHeader = ''forwarded''
              then (case matchFor v of Some m \<Rightarrow> m | None \<Rightarrow> v)
              else v)) \<and>
   (CLIENT_IP_HEADER e = Some customHeader \<and> customHeader \<noteq> [] \<and>
    headers customHeader = Some ''10.0.0.1'' \<longrightarrow>
      isPrivate ''10.0.0.1'' \<and> getIpAddress e headers = Some ''10.0.0.1'') \<and>
   (overrideApplies e headers \<longleftrightarrow>
      (\<exists>c x. CLIENT_IP_HEADER e = Some c \<and> c \<noteq> [] \<and> headers c = Some x \<and> x \<noteq> [])) \<and>
   (\<not> overrideApplies e headers \<longrightarrow>
      getIpAddress e headers = selectIp headers IP_ADDRESS_HEADERS) \<and>
   (CLIENT_IP_HEADER e = Some ''x-forwarded-for'' \<longrightarrow>
      getIpAddress e (headersOf [''x-forwarded-for'' \<mapsto> ''10.0.0.1 , 203.0.113.5''])
        = Some ''10.0.0.1'' \<and>
      getIpAddress e (headersOf [''x-forwarded-for'' \<mapsto> '', 203.0.113.5''])
        = Some '', 203.0.113.5'') \<and>
   (CLIENT_IP_HEADER e = Some ''X-Forwarded-For'' \<longrightarrow>
      getIpAddress e (headersOf [''x-forwarded-for'' \<mapsto> ''10.0.0.1, 203.0.113.5''])
        = Some ''10.0.0.1, 203.0.113.5'') \<and>
   (CLIENT_IP_HEADER e = Some ''forwarded'' \<longrightarrow>
      getIpAddress e (headersOf [''forwarded'' \<mapsto> ''for=192.168.1.20;proto=https;by=203.0.113.43''])
        = Some ''192.168.1.20'' \<and>
      getIpAddress e (headersOf [''forwarded'' \<mapsto> ''by=203.0.113.43;for=[2001:db8::1]:8080''])
        = Some ''[2001:db8::1]'' \<and>
      getIpAddress e (headersOf [''forwarded'' \<mapsto> ''proto=https;by=203.0.113.43''])
        = Some ''proto=https;by=203.0.113.43'') \<and>
   (CLIENT_IP_HEADER e = Some ''x-real-ip'' \<longrightarrow>
      getIpAddress e (headersOf [''x-real-ip'' \<mapsto> ''10.0.0.1, 203.0.113.5'',
                                 ''cf-connecting-ip'' \<mapsto> ''198.51.100.9''])
        = Some ''10.0.0.1, 203.0.113.5'')"
proof -
  have a: "getIpAddress e headers =
        Some (if customHeader = ''x-forwarded-for''
              then (if trim (takeWhile (\<lambda>c. c \<noteq> CHR '','') x) = [] then x
                    else trim (takeWhile (\<lambda>c. c \<noteq> CHR '','') x))
              else if customHeader = ''forwarded''
              then (case matchFor x of Some m \<Rightarrow> m | None \<Rightarrow> x)
              else x)"
    if "CLIENT_IP_HEADER e = Some customHeader" "customHeader \<noteq> []"
      "headers customHeader = Some x" "x \<noteq> []" for x
    using getIpAddress_override [of e customHeader headers x] that
    by (simp add: customIp_def firstForwarded_eq)
  have p: "isPrivate ''10.0.0.1''" by (simp add: isPrivate_def)
  have b: "getIpAddress e headers = Some ''10.0.0.1''"
    if "CLIENT_IP_HEADER e = Some customHeader" "customHeader \<noteq> []"
      "headers customHeader = Some ''10.0.0.1''"
    using getIpAddress_override [of e customHeader headers "''10.0.0.1''"] that
      firstForwarded_private matchFor_private
    by (simp add: customIp_def)
  have c: "\<not> overrideApplies e headers \<longrightarrow>
      getIpAddress e headers = selectIp headers IP_ADDRESS_HEADERS"
    using getIpAddress_no_override by blast
  have x1: "getIpAddress e (headersOf [''x-forwarded-for'' \<mapsto> ''10.0.0.1 , 203.0.113.5''])
        = Some ''10.0.0.1''"
    if "CLIENT_IP_HEADER e = Some ''x-forwarded-for''"
    using override_example [OF that, of _ "''10.0.0.1 , 203.0.113.5''"]
    by (simp add: lowerCase_xff customIp_xff_ex1 del: matchFor.simps)
  have x2: "getIpAddress e (headersOf [''x-forwarded-for'' \<mapsto> '', 203.0.113.5''])
        = Some '', 203.0.113.5''"
    if "CLIENT_IP_HEADER e = Some ''x-forwarded-for''"
    using override_example [OF that, of _ "'', 203.0.113.5''"]
    by (simp add: lowerCase_xff customIp_xff_ex2 del: matchFor.simps)
  have x3: "getIpAddress e (headersOf [''x-forwarded-for'' \<mapsto> ''10.0.0.1, 203.0.113.5''])
        = Some ''10.0.0.1, 203.0.113.5''"
    if "CLIENT_IP_HEADER e = Some ''X-Forwarded-For''"
    using override_example [OF that, of _ "''10.0.0.1, 203.0.113.5''"]
    by (simp add: lowerCase_XFF customIp_XFF_ex del: matchFor.simps)
  have f1: "getIpAddress e (headersOf [''forwarded'' \<mapsto> ''for=192.168.1.20;proto=https;by=203.0.113.43''])
        = Some ''192.168.1.20''"
    if "CLIENT_IP_HEADER e = Some ''forwarded''"
    using override_example [OF that, of _ "''for=192.168.1.20;proto=https;by=203.0.113.43''"]
    by (simp add: lowerCase_forwarded customIp_fwd_ex1 del: matchFor.simps)
  have f2: "getIpAddress e (headersOf [''forwarded'' \<mapsto> ''by=203.0.113.43;for=[2001:db8::1]:8080''])
        = Some ''[2001:db8::1]''"
    if "CLIENT_IP_HEADER e = Some ''forwarded''"
    using override_example [OF that, of _ "''by=203.0.113.43;for=[2001:db8::1]:8080''"]
    by (simp add: lowerCase_forwarded customIp_fwd_ex2 del: matchFor.simps)
  have f3: "getIpAddress e (headersOf [''forwarded'' \<mapsto> ''proto=https;by=203.0.113.43''])
        = Some ''proto=https;by=203.0.113.43''"
    if "CLIENT_IP_HEADER e = Some ''forwarded''"
    using override_example [OF that, of _ "''proto=https;by=203.0.113.43''"]
    by (simp add: lowerCase_forwarded customIp_fwd_ex3 del: matchFor.simps)
  have r1: "getIpAddress e (headersOf [''x-real-ip'' \<mapsto> ''10.0.0.1, 203.0.113.5'',
                                 ''cf-connecting-ip'' \<mapsto> ''198.51.100.9''])
        = Some ''10.0.0.1, 203.0.113.5''"
    if "CLIENT_IP_HEADER e = Some ''x-real-ip''"
    using override_example [OF that, of _ "''10.0.0.1, 203.0.113.5''"]
    by (simp add: lowerCase_x_real_ip customIp_other_ex del: matchFor.simps)
  from a [of v] b p overrideApplies_iff [of e headers] c x1 x2 x3 f1 f2 f3 r1
  show ?thesis by blast
qed

text \<open>
  The theorem of C5 for the override names \<open>x-forwarded-for\<close> and \<open>x-real-ip\<close> with
  the private address \<open>192.168.1.20\<close>.
\<close>

theorem getIpAddress_override_header_witness:
  "getIpAddress (exampleEnv\<lparr>CLIENT_IP_HEADER := Some ''x-forwarded-for''\<rparr>)
     (headersOf [''x-forwarded-for'' \<mapsto> ''192.168.1.20, 198.51.100.9''])
   = Some ''192.168.1.20'' \<and>
   getIpAddress (exampleEnv\<lparr>CLIENT_IP_HEADER := Some ''x-real-ip''\<rparr>)
     (headersOf [''x-real-ip'' \<mapsto> ''192.168.1.20'', ''cf-connecting-ip'' \<mapsto> ''198.51.100.9''])
   = Some ''192.168.1.20''"
proof -
  note main = getIpAddress_override_header [THEN conjunct1]
  have t: "trim (takeWhile (\<lambda>c. c \<noteq> CHR '','') ''192.168.1.20, 198.51.100.9'') = ''192.168.1.20''"
    by (simp add: trim_def isWhiteSpace_def)
  have "getIpAddress (exampleEnv\<lparr>CLIENT_IP_HEADER := Some ''x-forwarded-for''\<rparr>)
     (headersOf [''x-forwarded-for'' \<mapsto> ''192.168.1.20, 198.51.100.9''])
   = Some ''192.168.1.20''"
    using main [of "exampleEnv\<lparr>CLIENT_IP_HEADER := Some ''x-forwarded-for''\<rparr>"
      "''x-forwarded-for''"
      "headersOf [''x-forwarded-for'' \<mapsto> ''192.168.1.20, 198.51.100.9'']"
      "''192.168.1.20, 198.51.100.9''", unfolded t]
    by (simp add: headersOf_def lowerCase_xff)
  moreover have "getIpAddress (exampleEnv\<lparr>CLIENT_IP_HEADER := Some ''x-real-ip''\<rparr>)
     (headersOf [''x-real-ip'' \<mapsto> ''192.168.1.20'', ''cf-connecting-ip'' \<mapsto> ''198.51.100.9''])
   = Some ''192.168.1.20''"
    using main [of "exampleEnv\<lparr>CLIENT_IP_HEADER := Some ''x-real-ip''\<rparr>"
      "''x-real-ip''"
      "headersOf [''x-real-ip'' \<mapsto> ''192.168.1.20'', ''cf-connecting-ip'' \<mapsto> ''198.51.100.9'']"
      "''192.168.1.20''"]
    by (simp add: headersOf_def lowerCase_x_real_ip)
  ultimately show ?thesis by simp
qed

text \<open>
  Claim C5 as stated fails: the override header is set and present in the request
  with an empty value, and the result is not that value but the one of the
  precedence list, with the test for private addresses.
\<close>

theorem getIpAddress_override_header_counterexample:
  "headersOf [''x-envoy-external-address'' \<mapsto> [], ''x-real-ip'' \<mapsto> ''203.0.113.5'']
     ''x-envoy-external-address'' = Some [] \<and>
   getIpAddress (exampleEnv\<lparr>CLIENT_IP_HEADER := Some ''x-envoy-external-address''\<rparr>)
     (headersOf [''x-envoy-external-address'' \<mapsto> [], ''x-real-ip'' \<mapsto> ''203.0.113.5''])
   = Some ''203.0.113.5'' \<and>
   getIpAddress (exampleEnv\<lparr>CLIENT_IP_HEADER := Some ''x-envoy-external-address''\<rparr>)
     (headersOf [''x-envoy-external-address'' \<mapsto> [], ''x-real-ip'' \<mapsto> ''10.0.0.1''])
   = None"
proof -
  let ?e = "exampleEnv\<lparr>CLIENT_IP_HEADER := Some ''x-envoy-external-address''\<rparr>"
  have l: "lowerCase ''x-envoy-external-address'' = ''x-envoy-external-address''"
    by (simp add: lowerCase_def lowerChar_def)
  have g: "headersOf [''x-envoy-external-address'' \<mapsto> [], ''x-real-ip'' \<mapsto> x]
     ''x-envoy-external-address'' = Some []" for x
    by (simp add: headersOf_def l)
  have n: "\<not> overrideApplies ?e
      (headersOf [''x-envoy-external-address'' \<mapsto> [], ''x-real-ip'' \<mapsto> x])" for x
    by (simp add: overrideApplies_def g truthy_def)
  have p: "isPrivate ''10.0.0.1''" "\<not> isPrivate ''203.0.113.5''"
    by (simp_all add: isPrivate_def)
  have s: "selectIp [''x-envoy-external-address'' \<mapsto> [], ''x-real-ip'' \<mapsto> x] IP_ADDRESS_HEADERS
      = (if x \<noteq> [] \<and> \<not> isPrivate x then Some x else None)" for x
    by (simp add: IP_ADDRESS_HEADERS_def selectIp_Cons truthy_def extractIp_def
          del: selectIp.simps(2))
  have r: "getIpAddress ?e (headersOf [''x-envoy-external-address'' \<mapsto> [], ''x-real-ip'' \<mapsto> x])
      = (if x \<noteq> [] \<and> \<not> isPrivate x then Some x else None)" for x
    using getIpAddress_no_override [OF n [of x]] by (simp only: selectIp_headersOf s)
  show ?thesis using g [of "''203.0.113.5''"] r [of "''203.0.113.5''"] r [of "''10.0.0.1''"] p
    by simp
qed

text \<open>
  Claim C4, as the code has it.  When the override branch is not taken,
  \<open>getIpAddress\<close> uses the first element of an \<open>x-forwarded-for\<close> value only:
  replacing the value by the trimmed text before its first comma does not change
  the result, whatever the other headers are.  With \<open>x-forwarded-for\<close> as the only
  header the result is that first element when it is neither empty nor private, and
  \<open>null\<close> otherwise: \<open>10.0.0.1, 203.0.113.5\<close> gives \<open>null\<close> and
  \<open>203.0.113.5, 10.0.0.1\<close> gives \<open>203.0.113.5\<close>.  For such a request the override
  branch is taken exactly when the value is not empty and \<open>CLIENT_IP_HEADER\<close> is
  \<open>x-forwarded-for\<close> in any spelling of upper and lower case.
\<close>

theorem getIpAddress_first_forwarded:
  "(\<not> overrideApplies e (headersOf (m(''x-forwarded-for'' \<mapsto> v))) \<longrightarrow>
      getIpAddress e (headersOf (m(''x-forwarded-for'' \<mapsto> v))) =
        getIpAddress e
          (headersOf (m(''x-forwarded-for'' \<mapsto> trim (takeWhile (\<lambda>c. c \<noteq> CHR '','') v))))) \<and>
   (\<not> overrideApplies e (headersOf [''x-forwarded-for'' \<mapsto> v]) \<longrightarrow>
      getIpAddress e (headersOf [''x-forwarded-for'' \<mapsto> v]) =
        (if trim (takeWhile (\<lambda>c. c \<noteq> CHR '','') v) \<noteq> [] \<and>
            \<not> isPrivate (trim (takeWhile (\<lambda>c. c \<noteq> CHR '','') v))
         then Some (trim (takeWhile (\<lambda>c. c \<noteq> CHR '','') v)) else None)) \<and>
   (overrideApplies e (headersOf [''x-forwarded-for'' \<mapsto> v]) \<longleftrightarrow>
      v \<noteq> [] \<and> (\<exists>c. CLIENT_IP_HEADER e = Some c \<and> lowerCase c = ''x-forwarded-for'')) \<and>
   (\<not> overrideApplies e (headersOf [''x-forwarded-for'' \<mapsto> ''10.0.0.1, 203.0.113.5'']) \<longrightarrow>
      getIpAddress e (headersOf [''x-forwarded-for'' \<mapsto> ''10.0.0.1, 203.0.113.5'']) = None) \<and>
   (\<not> overrideApplies e (headersOf [''x-forwarded-for'' \<mapsto> ''203.0.113.5, 10.0.0.1'']) \<longrightarrow>
      getIpAddress e (headersOf [''x-forwarded-for'' \<mapsto> ''203.0.113.5, 10.0.0.1'']) =
        Some ''203.0.113.5'')"
proof -
  have a: "getIpAddress e (headersOf (m(''x-forwarded-for'' \<mapsto> v))) =
        getIpAddress e (headersOf (m(''x-forwarded-for'' \<mapsto> firstForwarded v)))"
    if n: "\<not> overrideApplies e (headersOf (m(''x-forwarded-for'' \<mapsto> v)))"
  proof -
    from n have n': "\<not> overrideApplies e (headersOf (m(''x-forwarded-for'' \<mapsto> firstForwarded v)))"
      using overrideApplies_first by blast
    have "getIpAddress e (headersOf (m(''x-forwarded-for'' \<mapsto> v))) =
            selectIp (m(''x-forwarded-for'' \<mapsto> v)) IP_ADDRESS_HEADERS"
      using getIpAddress_no_override [OF n] by (simp only: selectIp_headersOf)
    also have "\<dots> = selectIp (m(''x-forwarded-for'' \<mapsto> firstForwarded v)) IP_ADDRESS_HEADERS"
      by (rule selectIp_xff)
    also have "\<dots> = getIpAddress e (headersOf (m(''x-forwarded-for'' \<mapsto> firstForwarded v)))"
      using getIpAddress_no_override [OF n'] by (simp only: selectIp_headersOf)
    finally show ?thesis .
  qed
  have b: "getIpAddress e (headersOf [''x-forwarded-for'' \<mapsto> x]) =
        (if firstForwarded x \<noteq> [] \<and> \<not> isPrivate (firstForwarded x)
         then Some (firstForwarded x) else None)"
    if n: "\<not> overrideApplies e (headersOf [''x-forwarded-for'' \<mapsto> x])" for x
    using getIpAddress_no_override [OF n]
    by (simp only: selectIp_headersOf selectIp_xff_only)
  have p: "isPrivate ''10.0.0.1''" "\<not> isPrivate ''203.0.113.5''"
    by (simp_all add: isPrivate_def)
  have c: "getIpAddress e (headersOf [''x-forwarded-for'' \<mapsto> ''10.0.0.1, 203.0.113.5'']) = None"
    if n: "\<not> overrideApplies e (headersOf [''x-forwarded-for'' \<mapsto> ''10.0.0.1, 203.0.113.5''])"
    using b [OF n] p by (simp add: firstForwarded_ex1)
  have d: "getIpAddress e (headersOf [''x-forwarded-for'' \<mapsto> ''203.0.113.5, 10.0.0.1'']) =
        Some ''203.0.113.5''"
    if n: "\<not> overrideApplies e (headersOf [''x-forwarded-for'' \<mapsto> ''203.0.113.5, 10.0.0.1''])"
    using b [OF n] p by (simp add: firstForwarded_ex2)
  from a b [of v] overrideApplies_xff_only [of e v] c d show ?thesis
    unfolding firstForwarded_eq by blast
qed

text \<open>
  The theorem of C4 with no override header and with the override header
  \<open>x-real-ip\<close>, which the request does not carry.
\<close>

theorem getIpAddress_first_forwarded_witness:
  "getIpAddress exampleEnv (headersOf [''x-forwarded-for'' \<mapsto> ''192.168.0.9, 198.51.100.23''])
     = None \<and>
   getIpAddress (exampleEnv\<lparr>CLIENT_IP_HEADER := Some ''x-real-ip''\<rparr>)
     (headersOf [''x-forwarded-for'' \<mapsto> ''198.51.100.23 , 192.168.0.9''])
     = Some ''198.51.100.23''"
proof -
  note first = getIpAddress_first_forwarded [THEN conjunct2, THEN conjunct1, THEN mp]
  have f1: "trim (takeWhile (\<lambda>c. c \<noteq> CHR '','') ''192.168.0.9, 198.51.100.23'') = ''192.168.0.9''"
    by (simp add: trim_def isWhiteSpace_def)
  have f2: "trim (takeWhile (\<lambda>c. c \<noteq> CHR '','') ''198.51.100.23 , 192.168.0.9'') = ''198.51.100.23''"
    by (simp add: trim_def isWhiteSpace_def)
  have p: "isPrivate ''192.168.0.9''" "\<not> isPrivate ''198.51.100.23''"
    by (simp_all add: isPrivate_def)
  have n1: "\<not> overrideApplies exampleEnv
      (headersOf [''x-forwarded-for'' \<mapsto> ''192.168.0.9, 198.51.100.23''])"
    by (simp add: overrideApplies_def exampleEnv_def)
  have n2: "\<not> overrideApplies (exampleEnv\<lparr>CLIENT_IP_HEADER := Some ''x-real-ip''\<rparr>)
      (headersOf [''x-forwarded-for'' \<mapsto> ''198.51.100.23 , 192.168.0.9''])"
    by (simp add: overrideApplies_def headersOf_def lowerCase_def lowerChar_def truthy_def)
  have "getIpAddress exampleEnv
      (headersOf [''x-forwarded-for'' \<mapsto> ''192.168.0.9, 198.51.100.23'']) = None"
    using first [of exampleEnv "''192.168.0.9, 198.51.100.23''", unfolded f1] n1 p by simp
  moreover have "getIpAddress (exampleEnv\<lparr>CLIENT_IP_HEADER := Some ''x-real-ip''\<rparr>)
     (headersOf [''x-forwarded-for'' \<mapsto> ''198.51.100.23 , 192.168.0.9''])
     = Some ''198.51.100.23''"
    using first [of "exampleEnv\<lparr>CLIENT_IP_HEADER := Some ''x-real-ip''\<rparr>"
        "''198.51.100.23 , 192.168.0.9''", unfolded f2] n2 p
    by simp
  ultimately show ?thesis by simp
qed

text \<open>
  Claim C4 as stated fails: with \<open>CLIENT_IP_HEADER\<close> set to \<open>x-forwarded-for\<close> the
  private first element \<open>10.0.0.1\<close> is returned, not \<open>null\<close>; with it set to
  \<open>X-Forwarded-For\<close> the whole list, later elements included, is returned.
\<close>

theorem getIpAddress_first_forwarded_counterexample:
  "getIpAddress (exampleEnv\<lparr>CLIENT_IP_HEADER := Some ''x-forwarded-for''\<rparr>)
     (headersOf [''x-forwarded-for'' \<mapsto> ''10.0.0.1, 203.0.113.5'']) = Some ''10.0.0.1'' \<and>
   getIpAddress (exampleEnv\<lparr>CLIENT_IP_HEADER := Some ''X-Forwarded-For''\<rparr>)
     (headersOf [''x-forwarded-for'' \<mapsto> ''10.0.0.1, 203.0.113.5''])
     = Some ''10.0.0.1, 203.0.113.5''"
proof -
  have l: "lowerCase ''X-Forwarded-For'' = ''x-forwarded-for''"
    by code_simp
  show ?thesis
    by (simp add: getIpAddress_def headersOf_def l lowerCase_xff truthy_def customIp_def
          firstForwarded_ex1)
qed

section \<open>Properties of \<open>getLocation\<close>\<close>

lemma MAXMIND_emit: "MAXMIND (emit ev s) = MAXMIND s"
  by (simp add: emit_def)

lemma MAXMIND_debugLog: "MAXMIND (debugLog e s) = MAXMIND s"
  by (simp add: debugLog_def MAXMIND_emit)

lemma trace_emit: "trace (emit ev s) = trace s @ [ev]"
  by (simp add: emit_def)

lemma trace_debugLog:
  "trace (debugLog e s) = trace s @ (if truthy (DEBUG_GEO e) then [ConsoleLog] else [])"
  by (simp add: debugLog_def trace_emit)

lemma dbLookup_trace:
  "trace (snd (dbLookup w e db ip s)) =
     trace s @ [DbGet (stripPort ip)] @
       (if truthy (DEBUG_GEO e) then [ConsoleLog, ConsoleLog] else [])"
  by (simp add: dbLookup_def Let_def trace_debugLog trace_emit split: option.splits)

lemma databaseTier_trace:
  "\<exists>es. trace (snd (databaseTier w e ip s)) = trace s @ es \<and>
        (\<forall>n. HeaderGet n \<notin> set es) \<and>
        (case MAXMIND s of
           Some db \<Rightarrow> DbGet (stripPort ip) \<in> set es
         | None \<Rightarrow>
             FsAccess (case GEOLITE_DB_PATH e of
                         None \<Rightarrow> defaultDbPath w
                       | Some p \<Rightarrow> (if p = [] then defaultDbPath w else p)) \<in> set es)"
proof (cases "MAXMIND s")
  case (Some db)
  then show ?thesis
    by (simp add: databaseTier_def dbLookup_trace)
next
  case None
  define dbPath where "dbPath = (case GEOLITE_DB_PATH e of
                         None \<Rightarrow> defaultDbPath w
                       | Some p \<Rightarrow> (if p = [] then defaultDbPath w else p))"
  define s1 where "s1 = emit (FsAccess dbPath) (debugLog e s)"
  have t1: "trace s1 = trace s @ (if truthy (DEBUG_GEO e) then [ConsoleLog] else []) @
              [FsAccess dbPath]"
    by (simp add: s1_def trace_emit trace_debugLog)
  have d: "databaseTier w e ip s =
     (if \<not> fsAccess w dbPath then (None, emit ConsoleError s1)
      else (case maxmindOpen w dbPath of
              None \<Rightarrow> (None, emit ConsoleError (emit (DbOpen dbPath) s1))
            | Some db \<Rightarrow>
                dbLookup w e db ip
                  (debugLog e ((emit (DbOpen dbPath) s1)\<lparr>MAXMIND := Some db\<rparr>))))"
    unfolding databaseTier_def Let_def dbPath_def s1_def using None by simp
  have r: "trace (r\<lparr>MAXMIND := m\<rparr>) = trace r" for r :: "'a geo_state" and m
    by simp
  show ?thesis
    unfolding dbPath_def [symmetric] None option.case d
    by (cases "fsAccess w dbPath"; cases "maxmindOpen w dbPath")
       (simp_all add: trace_emit trace_debugLog dbLookup_trace t1 r)
qed

lemma stripPort_example: "stripPort ''198.51.100.23'' = ''198.51.100.23''"
  by code_simp

text \<open>
  Claim C6.  For an address that is neither empty nor local, when \<open>hasPayloadIP\<close>
  is true or \<open>SKIP_LOCATION_HEADERS\<close> is set, \<open>getLocation\<close> is the database tier:
  its result and its effects are those of the database tier, they do not depend on
  the headers, no header is read, and the database is consulted (a lookup on the
  open handle, or the file check that precedes the opening).
\<close>

theorem getLocation_payload_ip:
  "ip \<noteq> [] \<and> \<not> isLocalhost w ip \<and> (hasPayloadIP \<or> truthy (SKIP_LOCATION_HEADERS e)) \<longrightarrow>
     getLocation w e ip headers hasPayloadIP s = databaseTier w e ip (debugLog e s) \<and>
     getLocation w e ip headers hasPayloadIP s = getLocation w e ip headers' hasPayloadIP s \<and>
     (\<exists>es. trace (snd (getLocation w e ip headers hasPayloadIP s)) = trace s @ es \<and>
           (\<forall>n. HeaderGet n \<notin> set es) \<and>
           (case MAXMIND s of
              Some db \<Rightarrow> DbGet (stripPort ip) \<in> set es
            | None \<Rightarrow>
                FsAccess (case GEOLITE_DB_PATH e of
                            None \<Rightarrow> defaultDbPath w
                          | Some p \<Rightarrow> (if p = [] then defaultDbPath w else p)) \<in> set es))"
proof
  assume a: "ip \<noteq> [] \<and> \<not> isLocalhost w ip \<and> (hasPayloadIP \<or> truthy (SKIP_LOCATION_HEADERS e))"
  have g: "getLocation w e ip h hasPayloadIP s = databaseTier w e ip (debugLog e s)" for h
    using a by (auto simp: getLocation_def Let_def)
  obtain es where es: "trace (snd (databaseTier w e ip (debugLog e s))) = trace (debugLog e s) @ es"
      "\<forall>n. HeaderGet n \<notin> set es"
      "case MAXMIND (debugLog e s) of
           Some db \<Rightarrow> DbGet (stripPort ip) \<in> set es
         | None \<Rightarrow>
             FsAccess (case GEOLITE_DB_PATH e of
                         None \<Rightarrow> defaultDbPath w
                       | Some p \<Rightarrow> (if p = [] then defaultDbPath w else p)) \<in> set es"
    using databaseTier_trace [of w e ip "debugLog e s"] by blast
  let ?es = "(if truthy (DEBUG_GEO e) then [ConsoleLog] else []) @ es"
  have "trace (snd (getLocation w e ip headers hasPayloadIP s)) = trace s @ ?es"
    using es(1) by (simp add: g trace_debugLog)
  moreover have "\<forall>n. HeaderGet n \<notin> set ?es" using es(2) by simp
  moreover have "case MAXMIND s of
              Some db \<Rightarrow> DbGet (stripPort ip) \<in> set ?es
            | None \<Rightarrow>
                FsAccess (case GEOLITE_DB_PATH e of
                            None \<Rightarrow> defaultDbPath w
                          | Some p \<Rightarrow> (if p = [] then defaultDbPath w else p)) \<in> set ?es"
    using es(3) by (cases "MAXMIND s") (simp_all add: MAXMIND_debugLog)
  ultimately have "\<exists>es. trace (snd (getLocation w e ip headers hasPayloadIP s)) = trace s @ es \<and>
           (\<forall>n. HeaderGet n \<notin> set es) \<and>
           (case MAXMIND s of
              Some db \<Rightarrow> DbGet (stripPort ip) \<in> set es
            | None \<Rightarrow>
                FsAccess (case GEOLITE_DB_PATH e of
                            None \<Rightarrow> defaultDbPath w
                          | Some p \<Rightarrow> (if p = [] then defaultDbPath w else p)) \<in> set es)"
    by blast
  with g [of headers] g [of headers']
  show "getLocation w e ip headers hasPayloadIP s = databaseTier w e ip (debugLog e s) \<and>
     getLocation w e ip headers hasPayloadIP s = getLocation w e ip headers' hasPayloadIP s \<and>
     (\<exists>es. trace (snd (getLocation w e ip headers hasPayloadIP s)) = trace s @ es \<and>
           (\<forall>n. HeaderGet n \<notin> set es) \<and>
           (case MAXMIND s of
              Some db \<Rightarrow> DbGet (stripPort ip) \<in> set es
            | None \<Rightarrow>
                FsAccess (case GEOLITE_DB_PATH e of
                            None \<Rightarrow> defaultDbPath w
                          | Some p \<Rightarrow> (if p = [] then defaultDbPath w else p)) \<in> set es))"
    by simp
qed

text \<open>
  The theorem of C6 for a payload address and a request with \<open>cf-ipcountry: US\<close>:
  the location is the one of the database, and the effects are the file check, the
  opening and the lookup.
\<close>

theorem getLocation_payload_ip_witness:
  "fst (getLocation exampleWorld exampleEnv ''198.51.100.23'' [''cf-ipcountry'' \<mapsto> ''US'']
          True exampleState) =
     Some \<lparr>country = Some ''DE'', region = Some ''DE-BY'', city = Some ''Munich''\<rparr> \<and>
   trace (snd (getLocation exampleWorld exampleEnv ''198.51.100.23''
                 [''cf-ipcountry'' \<mapsto> ''US''] True exampleState)) =
     [FsAccess ''/app/geo/GeoLite2-City.mmdb'', DbOpen ''/app/geo/GeoLite2-City.mmdb'',
      DbGet ''198.51.100.23'']"
proof -
  have pub: "''198.51.100.23'' \<noteq> [] \<and> \<not> isLocalhost exampleWorld ''198.51.100.23'' \<and>
      (True \<or> truthy (SKIP_LOCATION_HEADERS exampleEnv))"
    by (simp add: exampleWorld_def)
  have rc: "getRegionCode (Some ''DE'') (Some ''BY'') = Some ''DE-BY''" by code_simp
  have db: "databaseTier exampleWorld exampleEnv ''198.51.100.23''
              (debugLog exampleEnv exampleState) =
     (Some \<lparr>country = Some ''DE'', region = Some ''DE-BY'', city = Some ''Munich''\<rparr>,
      \<lparr>MAXMIND = Some (),
       trace = [FsAccess ''/app/geo/GeoLite2-City.mmdb'',
                DbOpen ''/app/geo/GeoLite2-City.mmdb'', DbGet ''198.51.100.23'']\<rparr>)"
    by (simp add: databaseTier_def dbLookup_def debugLog_def emit_def Let_def truthy_def
          exampleWorld_def exampleEnv_def exampleState_def stripPort_example rc)
  show ?thesis
    using getLocation_payload_ip [THEN mp, THEN conjunct1, OF pub, of "[''cf-ipcountry'' \<mapsto> ''US'']"
        exampleState]
    by (simp add: db)
qed

text \<open>
  Claim C7.  For an empty or local address, whatever the headers and
  \<open>hasPayloadIP\<close>, \<open>getLocation\<close> returns \<open>null\<close>, leaves the database handle as it
  was and has no effect but the line on the console under \<open>DEBUG_GEO\<close>: no header
  read, no file check, no opening, no lookup.
\<close>

theorem getLocation_local:
  "ip = [] \<or> isLocalhost w ip \<longrightarrow>
     fst (getLocation w e ip headers hasPayloadIP s) = None \<and>
     MAXMIND (snd (getLocation w e ip headers hasPayloadIP s)) = MAXMIND s \<and>
     trace (snd (getLocation w e ip headers hasPayloadIP s)) =
       trace s @ (if truthy (DEBUG_GEO e) then [ConsoleLog] else [])"
  by (auto simp: getLocation_def MAXMIND_debugLog trace_debugLog)

text \<open>The theorem of C7 for the local address \<open>127.0.0.1\<close>.\<close>

theorem getLocation_local_witness:
  "fst (getLocation exampleWorld exampleEnv ''127.0.0.1'' [''cf-ipcountry'' \<mapsto> ''US'']
          False exampleState) = None \<and>
   MAXMIND (snd (getLocation exampleWorld exampleEnv ''127.0.0.1''
                   [''cf-ipcountry'' \<mapsto> ''US''] False exampleState)) = None \<and>
   trace (snd (getLocation exampleWorld exampleEnv ''127.0.0.1''
                 [''cf-ipcountry'' \<mapsto> ''US''] False exampleState)) = []"
  using getLocation_local [of "''127.0.0.1''" exampleWorld exampleEnv
      "[''cf-ipcountry'' \<mapsto> ''US'']" False exampleState]
  by (simp add: exampleWorld_def exampleEnv_def exampleState_def truthy_def)

section \<open>Properties of \<open>hasBlockedIp\<close>\<close>

lemma ruleMatches_Inl:
  "ruleMatches lib clientIp ip = Inl err \<longleftrightarrow>
     ip \<noteq> clientIp \<and> isCidrRule ip \<and>
     (parse lib clientIp = None \<and> err = ParseError clientIp \<or>
      parse lib clientIp \<noteq> None \<and> parseCIDR lib ip = None \<and> err = ParseCIDRError ip)"
  by (auto simp: ruleMatches_def split: option.splits)

lemma findRule_Inl:
  "findRule lib clientIp ips = Inl err \<longleftrightarrow>
     (\<exists>pre bad post. ips = pre @ bad # post \<and>
        (\<forall>r \<in> set pre. ruleMatches lib clientIp r = Inr False) \<and>
        ruleMatches lib clientIp bad = Inl err)"
proof (induction ips)
  case Nil
  then show ?case by simp
next
  case (Cons ip ips)
  show ?case
  proof (cases "ruleMatches lib clientIp ip")
    case (Inl e)
    show ?thesis
    proof
      assume "findRule lib clientIp (ip # ips) = Inl err"
      with Inl have "e = err" by simp
      with Inl have "ip # ips = [] @ ip # ips \<and>
        (\<forall>r \<in> set []. ruleMatches lib clientIp r = Inr False) \<and>
        ruleMatches lib clientIp ip = Inl err" by simp
      then show "\<exists>pre bad post. ip # ips = pre @ bad # post \<and>
        (\<forall>r \<in> set pre. ruleMatches lib clientIp r = Inr False) \<and>
        ruleMatches lib clientIp bad = Inl err" by blast
    next
      assume "\<exists>pre bad post. ip # ips = pre @ bad # post \<and>
        (\<forall>r \<in> set pre. ruleMatches lib clientIp r = Inr False) \<and>
        ruleMatches lib clientIp bad = Inl err"
      then obtain pre bad post where p: "ip # ips = pre @ bad # post"
        "\<forall>r \<in> set pre. ruleMatches lib clientIp r = Inr False"
        "ruleMatches lib clientIp bad = Inl err" by blast
      have "pre = []"
      proof (cases pre)
        case Nil
        then show ?thesis .
      next
        case (Cons a as)
        with p(1) have "a = ip" by simp
        with Cons p(2) Inl show ?thesis by simp
      qed
      with p(1) p(3) Inl have "e = err" by simp
      with Inl show "findRule lib clientIp (ip # ips) = Inl err" by simp
    qed
  next
    case (Inr b)
    show ?thesis
    proof (cases b)
      case True
      have "\<not> (\<exists>pre bad post. ip # ips = pre @ bad # post \<and>
        (\<forall>r \<in> set pre. ruleMatches lib clientIp r = Inr False) \<and>
        ruleMatches lib clientIp bad = Inl err)"
      proof
        assume "\<exists>pre bad post. ip # ips = pre @ bad # post \<and>
          (\<forall>r \<in> set pre. ruleMatches lib clientIp r = Inr False) \<and>
          ruleMatches lib clientIp bad = Inl err"
        then obtain pre bad post where p: "ip # ips = pre @ bad # post"
          "\<forall>r \<in> set pre. ruleMatches lib clientIp r = Inr False"
          "ruleMatches lib clientIp bad = Inl err" by blast
        show False
        proof (cases pre)
          case Nil
          with p(1) p(3) Inr show False by simp
        next
          case (Cons a as)
          with p(1) have "a = ip" by simp
          with Cons p(2) Inr True show False by simp
        qed
      qed
      with Inr True show ?thesis by simp
    next
      case False
      have "(\<exists>pre bad post. ip # ips = pre @ bad # post \<and>
          (\<forall>r \<in> set pre. ruleMatches lib clientIp r = Inr False) \<and>
          ruleMatches lib clientIp bad = Inl err) \<longleftrightarrow>
        (\<exists>pre bad post. ips = pre @ bad # post \<and>
          (\<forall>r \<in> set pre. ruleMatches lib clientIp r = Inr False) \<and>
          ruleMatches lib clientIp bad = Inl err)"
      proof
        assume "\<exists>pre bad post. ip # ips = pre @ bad # post \<and>
          (\<forall>r \<in> set pre. ruleMatches lib clientIp r = Inr False) \<and>
          ruleMatches lib clientIp bad = Inl err"
        then obtain pre bad post where p: "ip # ips = pre @ bad # post"
          "\<forall>r \<in> set pre. ruleMatches lib clientIp r = Inr False"
          "ruleMatches lib clientIp bad = Inl err" by blast
        show "\<exists>pre bad post. ips = pre @ bad # post \<and>
          (\<forall>r \<in> set pre. ruleMatches lib clientIp r = Inr False) \<and>
          ruleMatches lib clientIp bad = Inl err"
        proof (cases pre)
          case Nil
          with p(1) p(3) Inr show ?thesis by simp
        next
          case (Cons a as)
          with p(1) have "ips = as @ bad # post" by simp
          moreover from Cons p(2) have "\<forall>r \<in> set as. ruleMatches lib clientIp r = Inr False"
            by simp
          ultimately show ?thesis using p(3) by blast
        qed
      next
        assume "\<exists>pre bad post. ips = pre @ bad # post \<and>
          (\<forall>r \<in> set pre. ruleMatches lib clientIp r = Inr False) \<and>
          ruleMatches lib clientIp bad = Inl err"
        then obtain pre bad post where p: "ips = pre @ bad # post"
          "\<forall>r \<in> set pre. ruleMatches lib clientIp r = Inr False"
          "ruleMatches lib clientIp bad = Inl err" by blast
        from p(1) have "ip # ips = (ip # pre) @ bad # post" by simp
        moreover from p(2) Inr False
        have "\<forall>r \<in> set (ip # pre). ruleMatches lib clientIp r = Inr False" by simp
        ultimately show "\<exists>pre bad post. ip # ips = pre @ bad # post \<and>
          (\<forall>r \<in> set pre. ruleMatches lib clientIp r = Inr False) \<and>
          ruleMatches lib clientIp bad = Inl err" using p(3) by blast
      qed
      with Inr False Cons.IH show ?thesis by simp
    qed
  qed
qed

lemma findRule_None:
  "findRule lib clientIp ips = Inr None \<longleftrightarrow>
     (\<forall>r \<in> set ips. ruleMatches lib clientIp r = Inr False)"
  by (induction ips) (auto split: sum.splits bool.splits)

lemma findRule_Some:
  "findRule lib clientIp ips = Inr (Some r) \<Longrightarrow>
     r \<in> set ips \<and> ruleMatches lib clientIp r = Inr True"
  by (induction ips) (auto split: sum.splits bool.splits if_splits)


lemma hasBlockedIp_unfold:
  "IGNORE_IP e = Some ignoreIps \<Longrightarrow> ignoreIps \<noteq> [] \<Longrightarrow>
   hasBlockedIp lib e clientIp =
     (case findRule lib clientIp (blockRules ignoreIps) of
        Inl err \<Rightarrow> Inl err
      | Inr None \<Rightarrow> Inr Undefined
      | Inr (Some ip) \<Rightarrow> Inr (Rule ip))"
  by (simp add: hasBlockedIp_def)

lemma hasBlockedIp_absent:
  "\<not> truthy (IGNORE_IP e) \<Longrightarrow> hasBlockedIp lib e clientIp = Inr JFalse"
  by (auto simp: hasBlockedIp_def truthy_def split: option.splits)

lemma findRule_example_match:
  "findRule ipaddrV4 ''203.0.113.77'' (blockRules ''203.0.113.0/24'') =
     Inr (Some ''203.0.113.0/24'')"
  by code_simp

lemma findRule_example_miss:
  "findRule ipaddrV4 ''203.0.114.1'' (blockRules ''203.0.113.0/24'') = Inr None"
  by code_simp

text \<open>
  Claim C1, as the code has it.  \<open>hasBlockedIp\<close> has no handler for the errors of
  the address library.  It raises exactly when the search reaches, after rules that
  do not match, a rule that differs from the client address and has a \<open>/\<close> after
  its first character, and the client address does not parse or the rule does not
  parse as a range; the error is the one of the parser that failed, and the rules
  after that rule are not evaluated.  A configuration that is absent, or that has no
  rule with a \<open>/\<close> after its first character, never raises.
\<close>

theorem hasBlockedIp_raises:
  "(hasBlockedIp lib e clientIp = Inl err \<longleftrightarrow>
      (\<exists>ignoreIps pre bad post.
         IGNORE_IP e = Some ignoreIps \<and> ignoreIps \<noteq> [] \<and>
         blockRules ignoreIps = pre @ bad # post \<and>
         (\<forall>r \<in> set pre. ruleMatches lib clientIp r = Inr False) \<and>
         bad \<noteq> clientIp \<and> isCidrRule bad \<and>
         (parse lib clientIp = None \<and> err = ParseError clientIp \<or>
          parse lib clientIp \<noteq> None \<and> parseCIDR lib bad = None \<and>
          err = ParseCIDRError bad))) \<and>
   ((\<forall>ignoreIps. IGNORE_IP e = Some ignoreIps \<longrightarrow>
        (\<forall>r \<in> set (blockRules ignoreIps). \<not> isCidrRule r)) \<longrightarrow>
      (\<exists>b. hasBlockedIp lib e clientIp = Inr b))"
proof -
  have a: "hasBlockedIp lib e clientIp = Inl err \<longleftrightarrow>
      (\<exists>ignoreIps pre bad post.
         IGNORE_IP e = Some ignoreIps \<and> ignoreIps \<noteq> [] \<and>
         blockRules ignoreIps = pre @ bad # post \<and>
         (\<forall>r \<in> set pre. ruleMatches lib clientIp r = Inr False) \<and>
         bad \<noteq> clientIp \<and> isCidrRule bad \<and>
         (parse lib clientIp = None \<and> err = ParseError clientIp \<or>
          parse lib clientIp \<noteq> None \<and> parseCIDR lib bad = None \<and>
          err = ParseCIDRError bad))" for err
  proof (cases "truthy (IGNORE_IP e)")
    case False
    then have "hasBlockedIp lib e clientIp = Inr JFalse" by (rule hasBlockedIp_absent)
    moreover from False have "\<not> (\<exists>ignoreIps. IGNORE_IP e = Some ignoreIps \<and> ignoreIps \<noteq> [])"
      by (auto simp: truthy_def)
    ultimately show ?thesis by auto
  next
    case True
    then obtain cfg where cfg: "IGNORE_IP e = Some cfg" "cfg \<noteq> []"
      by (auto simp: truthy_def split: option.splits)
    have "hasBlockedIp lib e clientIp = Inl err \<longleftrightarrow>
            findRule lib clientIp (blockRules cfg) = Inl err"
      by (simp add: hasBlockedIp_unfold [OF cfg] split: sum.splits option.splits)
    also have "\<dots> \<longleftrightarrow> (\<exists>pre bad post. blockRules cfg = pre @ bad # post \<and>
        (\<forall>r \<in> set pre. ruleMatches lib clientIp r = Inr False) \<and>
        ruleMatches lib clientIp bad = Inl err)"
      by (rule findRule_Inl)
    finally show ?thesis using cfg by (simp add: ruleMatches_Inl)
  qed
  have b: "\<exists>b. hasBlockedIp lib e clientIp = Inr b"
    if h: "\<forall>ignoreIps. IGNORE_IP e = Some ignoreIps \<longrightarrow>
        (\<forall>r \<in> set (blockRules ignoreIps). \<not> isCidrRule r)"
  proof (cases "hasBlockedIp lib e clientIp")
    case (Inr b)
    then show ?thesis by blast
  next
    case (Inl x)
    then obtain cfg pre bad post where "IGNORE_IP e = Some cfg"
      "blockRules cfg = pre @ bad # post" "isCidrRule bad"
      using a [of x] by blast
    with h have False by auto
    then show ?thesis ..
  qed
  from a [of err] b show ?thesis by blast
qed

text \<open>
  The theorem of C1 at a client address that does not parse, with a well-formed
  range as the first rule.
\<close>

theorem hasBlockedIp_raises_witness:
  "hasBlockedIp ipaddrV4 (exampleEnv\<lparr>IGNORE_IP := Some ''198.51.100.0/24, 192.0.2.7''\<rparr>)
     ''not-an-ip'' = Inl (ParseError ''not-an-ip'')"
proof -
  let ?e = "exampleEnv\<lparr>IGNORE_IP := Some ''198.51.100.0/24, 192.0.2.7''\<rparr>"
  have r: "blockRules ''198.51.100.0/24, 192.0.2.7'' = [] @ ''198.51.100.0/24'' # [''192.0.2.7'']"
    by code_simp
  have c: "isCidrRule ''198.51.100.0/24''" by code_simp
  have p: "parse ipaddrV4 ''not-an-ip'' = None" by code_simp
  have "\<exists>ignoreIps pre bad post.
         IGNORE_IP ?e = Some ignoreIps \<and> ignoreIps \<noteq> [] \<and>
         blockRules ignoreIps = pre @ bad # post \<and>
         (\<forall>r \<in> set pre. ruleMatches ipaddrV4 ''not-an-ip'' r = Inr False) \<and>
         bad \<noteq> ''not-an-ip'' \<and> isCidrRule bad \<and>
         (parse ipaddrV4 ''not-an-ip'' = None \<and>
            ParseError ''not-an-ip'' = ParseError ''not-an-ip'' \<or>
          parse ipaddrV4 ''not-an-ip'' \<noteq> None \<and> parseCIDR ipaddrV4 bad = None \<and>
          ParseError ''not-an-ip'' = ParseCIDRError bad)"
    apply (rule exI [of _ "''198.51.100.0/24, 192.0.2.7''"])
    apply (rule exI [of _ "[]"])
    apply (rule exI [of _ "''198.51.100.0/24''"])
    apply (rule exI [of _ "[''192.0.2.7'']"])
    using r c p by simp
  then show ?thesis
    using hasBlockedIp_raises [of ipaddrV4 ?e "''not-an-ip''" "ParseError ''not-an-ip''",
        THEN conjunct1, THEN iffD2]
    by blast
qed

text \<open>
  Claim C1 as stated fails: the first rule \<open>bogus/24\<close> is malformed, the second rule
  is the client address itself, and the call raises the error of \<open>parseCIDR\<close>
  instead of going on to the second rule.
\<close>

theorem hasBlockedIp_raises_counterexample:
  "hasBlockedIp ipaddrV4 (exampleEnv\<lparr>IGNORE_IP := Some ''bogus/24, 203.0.113.77''\<rparr>)
     ''203.0.113.77'' = Inl (ParseCIDRError ''bogus/24'')"
  by code_simp

text \<open>
  Claim C2, as the code has it.  The function returns what \<open>find\<close> returns.  With
  the configuration \<open>203.0.113.0/24\<close> the result for \<open>203.0.113.77\<close> is the rule
  \<open>203.0.113.0/24\<close>, a truthy value, and the result for \<open>203.0.114.1\<close> is
  \<open>undefined\<close>, a falsy value.  The result is \<open>false\<close> when the configuration is
  absent or empty; with a configuration it is \<open>undefined\<close> exactly when every rule
  evaluates to no match; a rule is returned only when it matches the client address,
  and only such a result is truthy.
\<close>

theorem hasBlockedIp_result:
  "(IGNORE_IP e = Some ''203.0.113.0/24'' \<longrightarrow>
      hasBlockedIp ipaddrV4 e ''203.0.113.77'' = Inr (Rule ''203.0.113.0/24'') \<and>
      isTruthy (Rule ''203.0.113.0/24'') \<and>
      hasBlockedIp ipaddrV4 e ''203.0.114.1'' = Inr Undefined \<and>
      \<not> isTruthy Undefined) \<and>
   (\<not> truthy (IGNORE_IP e) \<longrightarrow> hasBlockedIp lib e clientIp = Inr JFalse) \<and>
   (truthy (IGNORE_IP e) \<longrightarrow>
      (hasBlockedIp lib e clientIp = Inr Undefined \<longleftrightarrow>
         (\<forall>ignoreIps. IGNORE_IP e = Some ignoreIps \<longrightarrow>
            (\<forall>r \<in> set (blockRules ignoreIps). ruleMatches lib clientIp r = Inr False)))) \<and>
   (hasBlockedIp lib e clientIp = Inr (Rule r) \<longrightarrow> ruleMatches lib clientIp r = Inr True) \<and>
   (hasBlockedIp lib e clientIp = Inr b \<and> isTruthy b \<longrightarrow>
      (\<exists>r. b = Rule r \<and> ruleMatches lib clientIp r = Inr True))"
proof -
  have ex: "hasBlockedIp ipaddrV4 e ''203.0.113.77'' = Inr (Rule ''203.0.113.0/24'') \<and>
      isTruthy (Rule ''203.0.113.0/24'') \<and>
      hasBlockedIp ipaddrV4 e ''203.0.114.1'' = Inr Undefined \<and>
      \<not> isTruthy Undefined"
    if c: "IGNORE_IP e = Some ''203.0.113.0/24''"
    using hasBlockedIp_unfold [OF c, of ipaddrV4 "''203.0.113.77''"]
      hasBlockedIp_unfold [OF c, of ipaddrV4 "''203.0.114.1''"]
    by (simp add: findRule_example_match findRule_example_miss isTruthy_def)
  have absent: "\<not> truthy (IGNORE_IP e) \<longrightarrow> hasBlockedIp lib e clientIp = Inr JFalse"
    using hasBlockedIp_absent by blast
  have undef: "hasBlockedIp lib e clientIp = Inr Undefined \<longleftrightarrow>
         (\<forall>ignoreIps. IGNORE_IP e = Some ignoreIps \<longrightarrow>
            (\<forall>r \<in> set (blockRules ignoreIps). ruleMatches lib clientIp r = Inr False))"
    if t: "truthy (IGNORE_IP e)"
  proof -
    from t obtain cfg where cfg: "IGNORE_IP e = Some cfg" "cfg \<noteq> []"
      by (auto simp: truthy_def split: option.splits)
    have "hasBlockedIp lib e clientIp = Inr Undefined \<longleftrightarrow>
            findRule lib clientIp (blockRules cfg) = Inr None"
      by (simp add: hasBlockedIp_unfold [OF cfg] split: sum.splits option.splits)
    then show ?thesis using cfg(1) by (simp add: findRule_None)
  qed
  have rule: "ruleMatches lib clientIp r = Inr True"
    if h: "hasBlockedIp lib e clientIp = Inr (Rule r)" for r
  proof (cases "truthy (IGNORE_IP e)")
    case False
    with h show ?thesis using hasBlockedIp_absent [OF False, of lib clientIp] by simp
  next
    case True
    then obtain cfg where cfg: "IGNORE_IP e = Some cfg" "cfg \<noteq> []"
      by (auto simp: truthy_def split: option.splits)
    from h have "findRule lib clientIp (blockRules cfg) = Inr (Some r)"
      by (simp add: hasBlockedIp_unfold [OF cfg] split: sum.splits option.splits)
    then show ?thesis using findRule_Some by blast
  qed
  have tr: "\<exists>r. b = Rule r \<and> ruleMatches lib clientIp r = Inr True"
    if "hasBlockedIp lib e clientIp = Inr b \<and> isTruthy b"
  proof (cases b)
    case (Rule x)
    with that rule [of x] show ?thesis by simp
  next
    case Undefined
    with that show ?thesis by (simp add: isTruthy_def)
  next
    case JFalse
    with that show ?thesis by (simp add: isTruthy_def)
  qed
  from ex absent undef rule [of r] tr show ?thesis by blast
qed

text \<open>
  The theorem of C2 at the range \<open>192.0.2.0/25\<close> and the address \<open>192.0.2.200\<close>
  outside it, and with no configuration.
\<close>

theorem hasBlockedIp_result_witness:
  "hasBlockedIp ipaddrV4 (exampleEnv\<lparr>IGNORE_IP := Some ''192.0.2.0/25''\<rparr>) ''192.0.2.200''
     = Inr Undefined \<and>
   hasBlockedIp ipaddrV4 exampleEnv ''192.0.2.200'' = Inr JFalse"
proof -
  let ?e = "exampleEnv\<lparr>IGNORE_IP := Some ''192.0.2.0/25''\<rparr>"
  have t: "truthy (IGNORE_IP ?e)" by (simp add: truthy_def)
  have r: "blockRules ''192.0.2.0/25'' = [''192.0.2.0/25'']" by code_simp
  have m: "ruleMatches ipaddrV4 ''192.0.2.200'' ''192.0.2.0/25'' = Inr False" by code_simp
  have all: "\<forall>ignoreIps. IGNORE_IP ?e = Some ignoreIps \<longrightarrow>
      (\<forall>r \<in> set (blockRules ignoreIps). ruleMatches ipaddrV4 ''192.0.2.200'' r = Inr False)"
    using r m by simp
  have "hasBlockedIp ipaddrV4 ?e ''192.0.2.200'' = Inr Undefined"
    using hasBlockedIp_result [of ?e ipaddrV4 "''192.0.2.200''",
        THEN conjunct2, THEN conjunct2, THEN conjunct1, THEN mp, OF t] all
    by blast
  moreover have "\<not> truthy (IGNORE_IP exampleEnv)"
    by (simp add: truthy_def exampleEnv_def)
  then have "hasBlockedIp ipaddrV4 exampleEnv ''192.0.2.200'' = Inr JFalse"
    using hasBlockedIp_result [of exampleEnv ipaddrV4 "''192.0.2.200''",
        THEN conjunct2, THEN conjunct1]
    by blast
  ultimately show ?thesis by simp
qed

text \<open>
  Claim C2 as stated fails: with the configuration \<open>203.0.113.0/24\<close> the result for
  \<open>203.0.113.77\<close> is the rule and not \<open>true\<close>, and the result for \<open>203.0.114.1\<close>
  is \<open>undefined\<close> and not \<open>false\<close>; so is the result for an address that a plain
  rule does not match.
\<close>

theorem hasBlockedIp_result_counterexample:
  "hasBlockedIp ipaddrV4 (exampleEnv\<lparr>IGNORE_IP := Some ''203.0.113.0/24''\<rparr>) ''203.0.113.77''
     = Inr (Rule ''203.0.113.0/24'') \<and>
   hasBlockedIp ipaddrV4 (exampleEnv\<lparr>IGNORE_IP := Some ''203.0.113.0/24''\<rparr>) ''203.0.114.1''
     = Inr Undefined \<and>
   hasBlockedIp ipaddrV4 (exampleEnv\<lparr>IGNORE_IP := Some ''203.0.113.0/24''\<rparr>) ''203.0.114.1''
     \<noteq> Inr JFalse \<and>
   hasBlockedIp ipaddrV4 (exampleEnv\<lparr>IGNORE_IP := Some ''192.0.2.7''\<rparr>) ''198.51.100.1''
     = Inr Undefined"
  by code_simp

end
